theory Spec2Isabelle
  imports Main "HOL-Library.Multiset" "HOL-Library.Sublist"
begin

section \<open>Time\<close>

text \<open>
  The monitor works with naive local \<^verbatim>\<open>datetime.datetime\<close> values. Such a value is a
  calendar date together with a time of day at microsecond resolution, and Python compares
  two of them field by field, most significant first. The model reads a datetime as the
  number of microseconds on that time line: the comparison is then the order of \<open>int\<close>,
  the date is the quotient by the length of a day and the time of day is the remainder.
  A date is its day number, as \<^verbatim>\<open>date.toordinal()\<close> counts it. The library's bound on years
  (1 to 9999) is not part of the model: timestamps are clock readings.
\<close>

type_synonym datetime = int
type_synonym date = int

definition us_per_second :: int where
  "us_per_second = 1000000"

definition us_per_minute :: int where
  "us_per_minute = 60 * us_per_second"

definition us_per_hour :: int where
  "us_per_hour = 60 * us_per_minute"

definition us_per_day :: int where
  "us_per_day = 24 * us_per_hour"

definition date_of :: "datetime \<Rightarrow> date" where
  "date_of t = t div us_per_day"

definition hour_of :: "datetime \<Rightarrow> int" where
  "hour_of t = (t mod us_per_day) div us_per_hour"

definition minute_of :: "datetime \<Rightarrow> int" where
  "minute_of t = (t mod us_per_hour) div us_per_minute"

definition second_of :: "datetime \<Rightarrow> int" where
  "second_of t = (t mod us_per_minute) div us_per_second"

definition microsecond_of :: "datetime \<Rightarrow> int" where
  "microsecond_of t = t mod us_per_second"

text \<open>\<^verbatim>\<open>datetime.datetime.combine(d, datetime.time(h, 0))\<close>: the full hour \<open>h\<close> of day \<open>d\<close>.\<close>

definition combine :: "date \<Rightarrow> int \<Rightarrow> datetime" where
  "combine d h = d * us_per_day + h * us_per_hour"

text \<open>\<^verbatim>\<open>datetime.timedelta(days=n)\<close>.\<close>

definition timedelta_days :: "int \<Rightarrow> int" where
  "timedelta_days n = n * us_per_day"

text \<open>
  The store keys its buckets by \<^verbatim>\<open>timestamp.strftime('%Y-%m-%d')\<close> and the trim reads a key
  back with \<^verbatim>\<open>strptime(date_str, '%Y-%m-%d')\<close>. The string names the date and nothing else,
  so a key is modelled by the date it names; reading it back gives midnight of that date.
\<close>

definition strftime_date_key :: "datetime \<Rightarrow> date" where
  "strftime_date_key t = date_of t"

definition strptime_date_key :: "date \<Rightarrow> datetime" where
  "strptime_date_key k = k * us_per_day"

section \<open>The event recorder\<close>

record ChangeRecord =
  timestamp :: datetime
  event_type :: string
  path :: string
  is_directory :: bool
  old_path :: "string option"

text \<open>
  \<^verbatim>\<open>defaultdict(list)\<close>: a dictionary from keys to lists that keeps its keys in the order of
  their first insertion. \<open>dd_append k v d\<close> is \<^verbatim>\<open>d[k].append(v)\<close>, which creates the entry
  for an absent key at the end; \<open>dd_del k d\<close> is \<^verbatim>\<open>del d[k]\<close> for a key that is present.
\<close>

type_synonym ('k, 'v) defaultdict = "('k \<times> 'v list) list"

fun dd_append :: "'k \<Rightarrow> 'v \<Rightarrow> ('k, 'v) defaultdict \<Rightarrow> ('k, 'v) defaultdict" where
  "dd_append k v [] = [(k, [v])]"
| "dd_append k v ((k', vs) # d) =
     (if k' = k then (k', vs @ [v]) # d else (k', vs) # dd_append k v d)"

definition dd_del :: "'k \<Rightarrow> ('k, 'v) defaultdict \<Rightarrow> ('k, 'v) defaultdict" where
  "dd_del k d = filter (\<lambda>kv. fst kv \<noteq> k) d"

definition dd_values :: "('k, 'v) defaultdict \<Rightarrow> 'v list list" where
  "dd_values d = map snd d"

definition dd_keys :: "('k, 'v) defaultdict \<Rightarrow> 'k list" where
  "dd_keys d = map fst d"

text \<open>
  The handler's state is the dictionary \<^verbatim>\<open>self.changes\<close>. Every method takes the lock for
  its whole body, so each is one atomic step on that state. The clock reading
  \<^verbatim>\<open>datetime.datetime.now()\<close> of a method is an argument \<open>now\<close> of its model.
\<close>

type_synonym FileMonitorHandler = "(date, ChangeRecord) defaultdict"

definition record_change ::
  "datetime \<Rightarrow> string \<Rightarrow> string \<Rightarrow> bool \<Rightarrow> string option
     \<Rightarrow> FileMonitorHandler \<Rightarrow> FileMonitorHandler" where
  "record_change now ev_type p is_dir old changes =
     (let change = \<lparr>timestamp = now, event_type = ev_type, path = p,
                    is_directory = is_dir, old_path = old\<rparr>;
          date_key = strftime_date_key (timestamp change)
      in dd_append date_key change changes)"

record FileSystemEvent =
  src_path :: string
  dest_path :: string
  ev_is_directory :: bool

definition on_created ::
  "datetime \<Rightarrow> FileSystemEvent \<Rightarrow> FileMonitorHandler \<Rightarrow> FileMonitorHandler" where
  "on_created now event changes =
     record_change now ''created'' (src_path event) (ev_is_directory event) None changes"

definition on_modified ::
  "datetime \<Rightarrow> FileSystemEvent \<Rightarrow> FileMonitorHandler \<Rightarrow> FileMonitorHandler" where
  "on_modified now event changes =
     (if \<not> ev_is_directory event
      then record_change now ''modified'' (src_path event) (ev_is_directory event) None changes
      else changes)"

definition on_deleted ::
  "datetime \<Rightarrow> FileSystemEvent \<Rightarrow> FileMonitorHandler \<Rightarrow> FileMonitorHandler" where
  "on_deleted now event changes =
     record_change now ''deleted'' (src_path event) (ev_is_directory event) None changes"

definition on_moved ::
  "datetime \<Rightarrow> FileSystemEvent \<Rightarrow> FileMonitorHandler \<Rightarrow> FileMonitorHandler" where
  "on_moved now event changes =
     record_change now ''moved'' (dest_path event) (ev_is_directory event)
       (Some (src_path event)) changes"

text \<open>
  \<^verbatim>\<open>get_changes_since_last_report\<close>: the two nested loops collect, bucket by bucket and in
  bucket order, the records later than the watermark; \<^verbatim>\<open>sorted(..., key=...)\<close> is a stable
  sort on the timestamp, as \<open>sort_key\<close> is.
\<close>

definition get_changes_since_last_report ::
  "FileMonitorHandler \<Rightarrow> datetime \<Rightarrow> ChangeRecord list" where
  "get_changes_since_last_report changes last_report_time =
     (let all_changes =
            concat (map (\<lambda>date_changes.
                           filter (\<lambda>change. timestamp change > last_report_time) date_changes)
                        (dd_values changes))
      in sort_key timestamp all_changes)"

text \<open>
  \<^verbatim>\<open>clear_old_changes\<close>: the cutoff is a datetime, the clock reading minus whole days; the
  first loop collects the keys whose midnight is before the cutoff, the second deletes them.
\<close>

definition clear_old_changes ::
  "datetime \<Rightarrow> int \<Rightarrow> FileMonitorHandler \<Rightarrow> FileMonitorHandler" where
  "clear_old_changes now days_to_keep changes =
     (let cutoff_date = now - timedelta_days days_to_keep;
          dates_to_remove =
            filter (\<lambda>date_str. strptime_date_key date_str < cutoff_date) (dd_keys changes)
      in foldl (\<lambda>d date_str. dd_del date_str d) changes dates_to_remove)"

text \<open>All records of the store, bucket after bucket.\<close>

definition all_records :: "FileMonitorHandler \<Rightarrow> ChangeRecord list" where
  "all_records changes = concat (dd_values changes)"

subsection \<open>The recorder as a state machine\<close>

text \<open>
  The three operations of the recorder, as steps on the store. The window read returns a
  list and assigns nothing, so its step leaves the store as it is. \<open>bucket changes k\<close> is
  the list that \<^verbatim>\<open>self.changes[k]\<close> holds, empty for an absent key. The invariant of the
  store: a key occurs once, and every record lies under the date of its own timestamp.
\<close>

datatype recorder_op =
    Record datetime string string bool "string option"
  | ReadSince datetime
  | Trim datetime int

fun recorder_step :: "recorder_op \<Rightarrow> FileMonitorHandler \<Rightarrow> FileMonitorHandler" where
  "recorder_step (Record now ev_type p is_dir old) changes =
     record_change now ev_type p is_dir old changes"
| "recorder_step (ReadSince t) changes = changes"
| "recorder_step (Trim now days_to_keep) changes = clear_old_changes now days_to_keep changes"

definition bucket :: "FileMonitorHandler \<Rightarrow> date \<Rightarrow> ChangeRecord list" where
  "bucket changes k = (case map_of changes k of None \<Rightarrow> [] | Some cs \<Rightarrow> cs)"

definition bucket_inv :: "FileMonitorHandler \<Rightarrow> bool" where
  "bucket_inv changes \<longleftrightarrow>
     distinct (dd_keys changes) \<and>
     list_all (\<lambda>kv. list_all (\<lambda>c. strftime_date_key (timestamp c) = fst kv) (snd kv)) changes"

section \<open>Text\<close>

text \<open>
  A Python \<^verbatim>\<open>str\<close> is modelled by the bytes of its UTF-8 encoding, which is what reaches
  the console. The program never measures a string, it only joins them. Decimal numbers
  are written as \<^verbatim>\<open>str(n)\<close> writes them, \<open>zfill\<close> pads with zeros on the left as the
  two-digit fields of \<^verbatim>\<open>strftime\<close> do, and \<open>str_join\<close> is \<^verbatim>\<open>sep.join(xs)\<close>.
\<close>

definition digit_char :: "nat \<Rightarrow> char" where
  "digit_char d = ''0123456789'' ! d"

fun str_nat :: "nat \<Rightarrow> string" where
  "str_nat n = (if n < 10 then [digit_char n] else str_nat (n div 10) @ [digit_char (n mod 10)])"

declare str_nat.simps [simp del]

definition zfill :: "nat \<Rightarrow> string \<Rightarrow> string" where
  "zfill w s = replicate (w - length s) (CHR ''0'') @ s"

fun str_join :: "string \<Rightarrow> string list \<Rightarrow> string" where
  "str_join sep [] = []"
| "str_join sep [x] = x"
| "str_join sep (x # y # ys) = x @ sep @ str_join sep (y # ys)"

text \<open>What an f-string writes for an optional string: the string, or \<^verbatim>\<open>None\<close>.\<close>

definition str_option :: "string option \<Rightarrow> string" where
  "str_option s = (case s of None \<Rightarrow> ''None'' | Some x \<Rightarrow> x)"

text \<open>\<open>WATCH_PATH\<close>: the monitored root, a path on a network drive.\<close>

definition WATCH_PATH :: string where
  "WATCH_PATH =
     ''M:''
     @ [CHR 0x5C, CHR 0xE5, CHR 0x8C, CHR 0x97, CHR 0xE6, CHR 0x97, CHR 0xA5, CHR 0xE6, CHR 0x9C,
      CHR 0xAC, CHR 0xE3, CHR 0x82, CHR 0xAB, CHR 0xE3, CHR 0x83, CHR 0xB3, CHR 0xE3, CHR 0x83,
      CHR 0x91, CHR 0xE3, CHR 0x83, CHR 0x8B, CHR 0xE3, CHR 0x83, CHR 0xBC, CHR 0x5C, CHR 0xE9,
      CHR 0x96, CHR 0x93, CHR 0xE6, CHR 0x8E, CHR 0xA5, CHR 0xE9, CHR 0x83, CHR 0xA8, CHR 0xE9,
      CHR 0x96, CHR 0x80, CHR 0x5C, CHR 0xE3, CHR 0x82, CHR 0xBB, CHR 0xE3, CHR 0x83, CHR 0xB3,
      CHR 0xE3, CHR 0x83, CHR 0x88, CHR 0xE3, CHR 0x83, CHR 0xA9, CHR 0xE3, CHR 0x83, CHR 0xAB,
      CHR 0xE3, CHR 0x82, CHR 0xAA, CHR 0xE3, CHR 0x83, CHR 0x95, CHR 0xE3, CHR 0x82, CHR 0xA3,
      CHR 0xE3, CHR 0x82, CHR 0xB9, CHR 0xE3, CHR 0x83, CHR 0xBB, CHR 0xE7, CHR 0x89, CHR 0xA9,
      CHR 0xE6, CHR 0xB5, CHR 0x81, CHR 0xE9, CHR 0x83, CHR 0xA8, CHR 0x5C, CHR 0xE3, CHR 0x82,
      CHR 0xBB, CHR 0xE3, CHR 0x83, CHR 0xB3, CHR 0xE3, CHR 0x83, CHR 0x88, CHR 0xE3, CHR 0x83,
      CHR 0xA9, CHR 0xE3, CHR 0x83, CHR 0xAB, CHR 0xE3, CHR 0x82, CHR 0xAA, CHR 0xE3, CHR 0x83,
      CHR 0x95, CHR 0xE3, CHR 0x82, CHR 0xA3, CHR 0xE3, CHR 0x82, CHR 0xB9, CHR 0xE8, CHR 0xAA,
      CHR 0xB2, CHR 0x5C]
     @ ''100_''
     @ [CHR 0xE3, CHR 0x82, CHR 0xB7, CHR 0xE3, CHR 0x82, CHR 0xB9, CHR 0xE3, CHR 0x83, CHR 0x86,
      CHR 0xE3, CHR 0x83, CHR 0xA0, CHR 0xE3, CHR 0x83, CHR 0x81, CHR 0xE3, CHR 0x83, CHR 0xBC,
      CHR 0xE3, CHR 0x83, CHR 0xA0, CHR 0x5C]
     @ ''03_UserLocal''"

text \<open>\<open>txt_report_title\<close>: "[scheduled report] ".\<close>

definition txt_report_title :: string where
  "txt_report_title =
     [CHR 0xE3, CHR 0x80, CHR 0x90, CHR 0xE5, CHR 0xAE, CHR 0x9A, CHR 0xE6, CHR 0x99, CHR 0x82,
      CHR 0xE3, CHR 0x83, CHR 0xAC, CHR 0xE3, CHR 0x83, CHR 0x9D, CHR 0xE3, CHR 0x83, CHR 0xBC,
      CHR 0xE3, CHR 0x83, CHR 0x88, CHR 0xE3, CHR 0x80, CHR 0x91]
     @ '' ''"

text \<open>\<open>txt_year\<close>: year mark.\<close>

definition txt_year :: string where
  "txt_year =
     [CHR 0xE5, CHR 0xB9, CHR 0xB4]"

text \<open>\<open>txt_month\<close>: month mark.\<close>

definition txt_month :: string where
  "txt_month =
     [CHR 0xE6, CHR 0x9C, CHR 0x88]"

text \<open>\<open>txt_day\<close>: day mark.\<close>

definition txt_day :: string where
  "txt_day =
     [CHR 0xE6, CHR 0x97, CHR 0xA5]"

text \<open>\<open>txt_no_change\<close>: "no changes".\<close>

definition txt_no_change :: string where
  "txt_no_change =
     [CHR 0xE5, CHR 0xA4, CHR 0x89, CHR 0xE5, CHR 0x8C, CHR 0x96, CHR 0xE3, CHR 0x81, CHR 0xAA,
      CHR 0xE3, CHR 0x81, CHR 0x97]"

text \<open>\<open>txt_detected\<close>: "detected changes: ".\<close>

definition txt_detected :: string where
  "txt_detected =
     [CHR 0xE6, CHR 0xA4, CHR 0x9C, CHR 0xE5, CHR 0x87, CHR 0xBA, CHR 0xE3, CHR 0x81, CHR 0x95,
      CHR 0xE3, CHR 0x82, CHR 0x8C, CHR 0xE3, CHR 0x81, CHR 0x9F, CHR 0xE5, CHR 0xA4, CHR 0x89,
      CHR 0xE6, CHR 0x9B, CHR 0xB4]
     @ '': ''"

text \<open>\<open>txt_items\<close>: the counter word for items.\<close>

definition txt_items :: string where
  "txt_items =
     [CHR 0xE4, CHR 0xBB, CHR 0xB6]"

text \<open>\<open>txt_square\<close>: a black square.\<close>

definition txt_square :: string where
  "txt_square =
     [CHR 0xE2, CHR 0x96, CHR 0xA0]"

text \<open>\<open>txt_created\<close>: "newly created".\<close>

definition txt_created :: string where
  "txt_created =
     [CHR 0xE6, CHR 0x96, CHR 0xB0, CHR 0xE8, CHR 0xA6, CHR 0x8F, CHR 0xE4, CHR 0xBD, CHR 0x9C,
      CHR 0xE6, CHR 0x88, CHR 0x90]"

text \<open>\<open>txt_modified\<close>: "updated".\<close>

definition txt_modified :: string where
  "txt_modified =
     [CHR 0xE6, CHR 0x9B, CHR 0xB4, CHR 0xE6, CHR 0x96, CHR 0xB0]"

text \<open>\<open>txt_deleted\<close>: "deleted".\<close>

definition txt_deleted :: string where
  "txt_deleted =
     [CHR 0xE5, CHR 0x89, CHR 0x8A, CHR 0xE9, CHR 0x99, CHR 0xA4]"

text \<open>\<open>txt_moved\<close>: "moved or renamed".\<close>

definition txt_moved :: string where
  "txt_moved =
     [CHR 0xE7, CHR 0xA7, CHR 0xBB, CHR 0xE5, CHR 0x8B, CHR 0x95, CHR 0xE3, CHR 0x83, CHR 0xBB,
      CHR 0xE3, CHR 0x83, CHR 0xAA, CHR 0xE3, CHR 0x83, CHR 0x8D, CHR 0xE3, CHR 0x83, CHR 0xBC,
      CHR 0xE3, CHR 0x83, CHR 0xA0]"

text \<open>\<open>txt_folder\<close>: "folder".\<close>

definition txt_folder :: string where
  "txt_folder =
     [CHR 0xE3, CHR 0x83, CHR 0x95, CHR 0xE3, CHR 0x82, CHR 0xA9, CHR 0xE3, CHR 0x83, CHR 0xAB,
      CHR 0xE3, CHR 0x83, CHR 0x80]"

text \<open>\<open>txt_file\<close>: "file".\<close>

definition txt_file :: string where
  "txt_file =
     [CHR 0xE3, CHR 0x83, CHR 0x95, CHR 0xE3, CHR 0x82, CHR 0xA1, CHR 0xE3, CHR 0x82, CHR 0xA4,
      CHR 0xE3, CHR 0x83, CHR 0xAB]"

text \<open>\<open>txt_arrow\<close>: a rightwards arrow.\<close>

definition txt_arrow :: string where
  "txt_arrow =
     [CHR 0xE2, CHR 0x86, CHR 0x92]"

text \<open>\<open>txt_error\<close>: "error: ".\<close>

definition txt_error :: string where
  "txt_error =
     [CHR 0xE3, CHR 0x82, CHR 0xA8, CHR 0xE3, CHR 0x83, CHR 0xA9, CHR 0xE3, CHR 0x83, CHR 0xBC]
     @ '': ''"

text \<open>\<open>txt_path_missing\<close>: "error: the monitored path does not exist: ".\<close>

definition txt_path_missing :: string where
  "txt_path_missing =
     [CHR 0xE3, CHR 0x82, CHR 0xA8, CHR 0xE3, CHR 0x83, CHR 0xA9, CHR 0xE3, CHR 0x83, CHR 0xBC]
     @ '': ''
     @ [CHR 0xE7, CHR 0x9B, CHR 0xA3, CHR 0xE8, CHR 0xA6, CHR 0x96, CHR 0xE5, CHR 0xAF, CHR 0xBE,
      CHR 0xE8, CHR 0xB1, CHR 0xA1, CHR 0xE3, CHR 0x83, CHR 0x91, CHR 0xE3, CHR 0x82, CHR 0xB9,
      CHR 0xE3, CHR 0x81, CHR 0x8C, CHR 0xE5, CHR 0xAD, CHR 0x98, CHR 0xE5, CHR 0x9C, CHR 0xA8,
      CHR 0xE3, CHR 0x81, CHR 0x97, CHR 0xE3, CHR 0x81, CHR 0xBE, CHR 0xE3, CHR 0x81, CHR 0x9B,
      CHR 0xE3, CHR 0x82, CHR 0x93]
     @ '': ''"

text \<open>\<open>txt_already_running\<close>: "monitoring is already running.".\<close>

definition txt_already_running :: string where
  "txt_already_running =
     [CHR 0xE7, CHR 0x9B, CHR 0xA3, CHR 0xE8, CHR 0xA6, CHR 0x96, CHR 0xE3, CHR 0x81, CHR 0xAF,
      CHR 0xE6, CHR 0x97, CHR 0xA2, CHR 0xE3, CHR 0x81, CHR 0xAB, CHR 0xE5, CHR 0xAE, CHR 0x9F,
      CHR 0xE8, CHR 0xA1, CHR 0x8C, CHR 0xE4, CHR 0xB8, CHR 0xAD, CHR 0xE3, CHR 0x81, CHR 0xA7,
      CHR 0xE3, CHR 0x81, CHR 0x99, CHR 0xE3, CHR 0x80, CHR 0x82]"

text \<open>\<open>txt_started\<close>: "file monitoring started: ".\<close>

definition txt_started :: string where
  "txt_started =
     [CHR 0xE3, CHR 0x83, CHR 0x95, CHR 0xE3, CHR 0x82, CHR 0xA1, CHR 0xE3, CHR 0x82, CHR 0xA4,
      CHR 0xE3, CHR 0x83, CHR 0xAB, CHR 0xE7, CHR 0x9B, CHR 0xA3, CHR 0xE8, CHR 0xA6, CHR 0x96,
      CHR 0xE3, CHR 0x82, CHR 0x92, CHR 0xE9, CHR 0x96, CHR 0x8B, CHR 0xE5, CHR 0xA7, CHR 0x8B,
      CHR 0xE3, CHR 0x81, CHR 0x97, CHR 0xE3, CHR 0x81, CHR 0xBE, CHR 0xE3, CHR 0x81, CHR 0x97,
      CHR 0xE3, CHR 0x81, CHR 0x9F]
     @ '': ''"

text \<open>\<open>txt_report_hours\<close>: "report times: ".\<close>

definition txt_report_hours :: string where
  "txt_report_hours =
     [CHR 0xE3, CHR 0x83, CHR 0xAC, CHR 0xE3, CHR 0x83, CHR 0x9D, CHR 0xE3, CHR 0x83, CHR 0xBC,
      CHR 0xE3, CHR 0x83, CHR 0x88, CHR 0xE6, CHR 0x99, CHR 0x82, CHR 0xE5, CHR 0x88, CHR 0xBB]
     @ '': ''"

text \<open>\<open>txt_how_to_stop\<close>: "to stop, run stop_monitor.bat.".\<close>

definition txt_how_to_stop :: string where
  "txt_how_to_stop =
     [CHR 0xE5, CHR 0x81, CHR 0x9C, CHR 0xE6, CHR 0xAD, CHR 0xA2, CHR 0xE3, CHR 0x81, CHR 0x99,
      CHR 0xE3, CHR 0x82, CHR 0x8B, CHR 0xE3, CHR 0x81, CHR 0xAB, CHR 0xE3, CHR 0x81, CHR 0xAF]
     @ '' stop_monitor.bat ''
     @ [CHR 0xE3, CHR 0x82, CHR 0x92, CHR 0xE5, CHR 0xAE, CHR 0x9F, CHR 0xE8, CHR 0xA1, CHR 0x8C,
      CHR 0xE3, CHR 0x81, CHR 0x97, CHR 0xE3, CHR 0x81, CHR 0xA6, CHR 0xE3, CHR 0x81, CHR 0x8F,
      CHR 0xE3, CHR 0x81, CHR 0xA0, CHR 0xE3, CHR 0x81, CHR 0x95, CHR 0xE3, CHR 0x81, CHR 0x84,
      CHR 0xE3, CHR 0x80, CHR 0x82]"

text \<open>\<open>txt_keyboard_interrupt\<close>: "stopping on keyboard interrupt.", after a line feed.\<close>

definition txt_keyboard_interrupt :: string where
  "txt_keyboard_interrupt =
     [CHR 0x0A, CHR 0xE3, CHR 0x82, CHR 0xAD, CHR 0xE3, CHR 0x83, CHR 0xBC, CHR 0xE3, CHR 0x83,
      CHR 0x9C, CHR 0xE3, CHR 0x83, CHR 0xBC, CHR 0xE3, CHR 0x83, CHR 0x89, CHR 0xE5, CHR 0x89,
      CHR 0xB2, CHR 0xE3, CHR 0x82, CHR 0x8A, CHR 0xE8, CHR 0xBE, CHR 0xBC, CHR 0xE3, CHR 0x81,
      CHR 0xBF, CHR 0xE3, CHR 0x81, CHR 0xAB, CHR 0xE3, CHR 0x82, CHR 0x88, CHR 0xE3, CHR 0x82,
      CHR 0x8A, CHR 0xE7, CHR 0x9B, CHR 0xA3, CHR 0xE8, CHR 0xA6, CHR 0x96, CHR 0xE3, CHR 0x82,
      CHR 0x92, CHR 0xE5, CHR 0x81, CHR 0x9C, CHR 0xE6, CHR 0xAD, CHR 0xA2, CHR 0xE3, CHR 0x81,
      CHR 0x97, CHR 0xE3, CHR 0x81, CHR 0xBE, CHR 0xE3, CHR 0x81, CHR 0x99, CHR 0xE3, CHR 0x80,
      CHR 0x82]"

text \<open>\<open>txt_stopped\<close>: "file monitoring stopped.".\<close>

definition txt_stopped :: string where
  "txt_stopped =
     [CHR 0xE3, CHR 0x83, CHR 0x95, CHR 0xE3, CHR 0x82, CHR 0xA1, CHR 0xE3, CHR 0x82, CHR 0xA4,
      CHR 0xE3, CHR 0x83, CHR 0xAB, CHR 0xE7, CHR 0x9B, CHR 0xA3, CHR 0xE8, CHR 0xA6, CHR 0x96,
      CHR 0xE3, CHR 0x82, CHR 0x92, CHR 0xE5, CHR 0x81, CHR 0x9C, CHR 0xE6, CHR 0xAD, CHR 0xA2,
      CHR 0xE3, CHR 0x81, CHR 0x97, CHR 0xE3, CHR 0x81, CHR 0xBE, CHR 0xE3, CHR 0x81, CHR 0x97,
      CHR 0xE3, CHR 0x81, CHR 0x9F, CHR 0xE3, CHR 0x80, CHR 0x82]"

text \<open>\<open>txt_connection_lost\<close>: "warning: the connection to the monitored path is lost: ".\<close>

definition txt_connection_lost :: string where
  "txt_connection_lost =
     [CHR 0xE8, CHR 0xAD, CHR 0xA6, CHR 0xE5, CHR 0x91, CHR 0x8A]
     @ '': ''
     @ [CHR 0xE7, CHR 0x9B, CHR 0xA3, CHR 0xE8, CHR 0xA6, CHR 0x96, CHR 0xE5, CHR 0xAF, CHR 0xBE,
      CHR 0xE8, CHR 0xB1, CHR 0xA1, CHR 0xE3, CHR 0x83, CHR 0x91, CHR 0xE3, CHR 0x82, CHR 0xB9,
      CHR 0xE3, CHR 0x81, CHR 0xB8, CHR 0xE3, CHR 0x81, CHR 0xAE, CHR 0xE6, CHR 0x8E, CHR 0xA5,
      CHR 0xE7, CHR 0xB6, CHR 0x9A, CHR 0xE3, CHR 0x81, CHR 0x8C, CHR 0xE5, CHR 0x88, CHR 0x87,
      CHR 0xE3, CHR 0x82, CHR 0x8C, CHR 0xE3, CHR 0x81, CHR 0xA6, CHR 0xE3, CHR 0x81, CHR 0x84,
      CHR 0xE3, CHR 0x81, CHR 0xBE, CHR 0xE3, CHR 0x81, CHR 0x99]
     @ '': ''"

text \<open>\<open>txt_waiting\<close>: "waiting for the connection to come back...".\<close>

definition txt_waiting :: string where
  "txt_waiting =
     [CHR 0xE6, CHR 0x8E, CHR 0xA5, CHR 0xE7, CHR 0xB6, CHR 0x9A, CHR 0xE5, CHR 0xBE, CHR 0xA9,
      CHR 0xE6, CHR 0x97, CHR 0xA7, CHR 0xE3, CHR 0x82, CHR 0x92, CHR 0xE5, CHR 0xBE, CHR 0x85,
      CHR 0xE6, CHR 0xA9, CHR 0x9F, CHR 0xE4, CHR 0xB8, CHR 0xAD]
     @ ''...''"

text \<open>\<open>txt_recovered\<close>: "the connection is back. monitoring continues.".\<close>

definition txt_recovered :: string where
  "txt_recovered =
     [CHR 0xE6, CHR 0x8E, CHR 0xA5, CHR 0xE7, CHR 0xB6, CHR 0x9A, CHR 0xE3, CHR 0x81, CHR 0x8C,
      CHR 0xE5, CHR 0xBE, CHR 0xA9, CHR 0xE6, CHR 0x97, CHR 0xA7, CHR 0xE3, CHR 0x81, CHR 0x97,
      CHR 0xE3, CHR 0x81, CHR 0xBE, CHR 0xE3, CHR 0x81, CHR 0x97, CHR 0xE3, CHR 0x81, CHR 0x9F,
      CHR 0xE3, CHR 0x80, CHR 0x82, CHR 0xE7, CHR 0x9B, CHR 0xA3, CHR 0xE8, CHR 0xA6, CHR 0x96,
      CHR 0xE3, CHR 0x82, CHR 0x92, CHR 0xE7, CHR 0xB6, CHR 0x99, CHR 0xE7, CHR 0xB6, CHR 0x9A,
      CHR 0xE3, CHR 0x81, CHR 0x97, CHR 0xE3, CHR 0x81, CHR 0xBE, CHR 0xE3, CHR 0x81, CHR 0x99,
      CHR 0xE3, CHR 0x80, CHR 0x82]"

section \<open>The calendar\<close>

text \<open>
  The report prints months and days, so the day number has to be turned into a year, a
  month and a day. This is the conversion of the datetime module for the proleptic
  Gregorian calendar, day 1 being the first of January of year 1: whole cycles of 400, 100
  and 4 years and then single years are taken off, and the month is estimated from the
  remaining days and corrected by one where the estimate is too late.
\<close>

definition DAYS_IN_MONTH :: "int list" where
  "DAYS_IN_MONTH = [-1, 31, 28, 31, 30, 31, 30, 31, 31, 30, 31, 30, 31]"

definition DAYS_BEFORE_MONTH :: "int list" where
  "DAYS_BEFORE_MONTH = [-1, 0, 31, 59, 90, 120, 151, 181, 212, 243, 273, 304, 334]"

definition ord2ymd :: "date \<Rightarrow> int \<times> int \<times> int" where
  "ord2ymd ordinal =
     (let n = ordinal - 1;
          n400 = n div 146097; r400 = n mod 146097;
          n100 = r400 div 36524; r100 = r400 mod 36524;
          n4 = r100 div 1461; r4 = r100 mod 1461;
          n1 = r4 div 365; r1 = r4 mod 365;
          year = n400 * 400 + 1 + n100 * 100 + n4 * 4 + n1
      in if n1 = 4 \<or> n100 = 4 then (year - 1, 12, 31)
         else
           (let leapyear = (n1 = 3 \<and> (n4 \<noteq> 24 \<or> n100 = 3));
                month = (r1 + 50) div 32;
                preceding = DAYS_BEFORE_MONTH ! nat month
                            + (if month > 2 \<and> leapyear then 1 else 0)
            in if preceding > r1
               then (let month' = month - 1;
                         preceding' = preceding
                           - (DAYS_IN_MONTH ! nat month'
                              + (if month' = 2 \<and> leapyear then 1 else 0))
                     in (year, month', r1 - preceding' + 1))
               else (year, month, r1 - preceding + 1)))"

definition two_digits :: "int \<Rightarrow> string" where
  "two_digits n = zfill 2 (str_nat (nat n))"

text \<open>\<^verbatim>\<open>strftime('%m/%d %H:%M')\<close>, the time column of a report line.\<close>

definition strftime_line :: "datetime \<Rightarrow> string" where
  "strftime_line t =
     (case ord2ymd (date_of t) of (y, m, d) \<Rightarrow>
        two_digits m @ ''/'' @ two_digits d @ '' '' @
        two_digits (hour_of t) @ '':'' @ two_digits (minute_of t))"

text \<open>The format of the report's title line: year, month and day, each followed by its
  mark, then hour and minute.\<close>

definition strftime_title :: "datetime \<Rightarrow> string" where
  "strftime_title t =
     (case ord2ymd (date_of t) of (y, m, d) \<Rightarrow>
        zfill 4 (str_nat (nat y)) @ txt_year @ two_digits m @ txt_month @
        two_digits d @ txt_day @ '' '' @
        two_digits (hour_of t) @ '':'' @ two_digits (minute_of t))"

section \<open>The report scheduler\<close>

definition REPORT_HOURS :: "int list" where
  "REPORT_HOURS = [6, 10, 14, 17]"

text \<open>
  \<^verbatim>\<open>_get_next_report_time\<close>: the loop returns at the first report hour greater than the
  current hour; when it finds none, the first report hour of the next day is returned.
\<close>

definition get_next_report_time :: "datetime \<Rightarrow> datetime" where
  "get_next_report_time current_time =
     (let current_date = date_of current_time;
          current_hour = hour_of current_time
      in case find (\<lambda>hour. hour > current_hour) REPORT_HOURS of
           Some hour \<Rightarrow> combine current_date hour
         | None \<Rightarrow>
             (let tomorrow = current_date + 1
              in combine tomorrow (REPORT_HOURS ! 0)))"

section \<open>The monitor\<close>

text \<open>
  The state of a \<^verbatim>\<open>FileMonitor\<close>, together with what the process has printed: one entry of
  \<open>stdout\<close> for each call of \<^verbatim>\<open>print\<close>, without the line feed that \<^verbatim>\<open>print\<close> adds.
  An exception is either a keyboard interrupt or an \<^verbatim>\<open>Exception\<close> with its message.
\<close>

datatype exn = KeyboardInterrupt | Exception string

datatype observer_state = NoObserver | ObserverStarted | ObserverStopped

datatype thread_state = NoThread | ThreadStarted | ThreadEnded "exn option"

record FileMonitor =
  observer :: observer_state
  handler :: FileMonitorHandler
  last_report_time :: datetime
  running :: bool
  report_thread :: thread_state
  stdout :: "string list"

definition print_line :: "string \<Rightarrow> FileMonitor \<Rightarrow> FileMonitor" where
  "print_line s m = m\<lparr>stdout := stdout m @ [s]\<rparr>"

text \<open>\<^verbatim>\<open>FileMonitor.__init__\<close>, at clock reading \<open>now\<close>.\<close>

definition init_monitor :: "datetime \<Rightarrow> FileMonitor" where
  "init_monitor now =
     \<lparr>observer = NoObserver, handler = [], last_report_time = now, running = False,
      report_thread = NoThread, stdout = []\<rparr>"

subsection \<open>Rendering a report\<close>

definition type_names :: "(string \<times> string) list" where
  "type_names =
     [(''created'', txt_created), (''modified'', txt_modified),
      (''deleted'', txt_deleted), (''moved'', txt_moved)]"

text \<open>\<^verbatim>\<open>type_names.get(event_type, event_type)\<close>.\<close>

definition type_name :: "string \<Rightarrow> string" where
  "type_name ev_type = (case map_of type_names ev_type of Some s \<Rightarrow> s | None \<Rightarrow> ev_type)"

text \<open>
  \<^verbatim>\<open>by_type\<close>: the batch is classified by event type into a \<^verbatim>\<open>defaultdict(list)\<close>, one
  record after the other.
\<close>

definition group_by_type :: "ChangeRecord list \<Rightarrow> (string, ChangeRecord) defaultdict" where
  "group_by_type changes =
     foldl (\<lambda>by_type change. dd_append (event_type change) change by_type) [] changes"

definition render_change :: "ChangeRecord \<Rightarrow> string" where
  "render_change change =
     (let time_str = strftime_line (timestamp change);
          type_str = (if is_directory change then txt_folder else txt_file)
      in if event_type change = ''moved''
         then ''  '' @ time_str @ '' ['' @ type_str @ ''] '' @ str_option (old_path change)
              @ '' '' @ txt_arrow @ '' '' @ path change
         else ''  '' @ time_str @ '' ['' @ type_str @ ''] '' @ path change)"

definition group_header :: "string \<times> ChangeRecord list \<Rightarrow> string" where
  "group_header g =
     (case g of (ev_type, type_changes) \<Rightarrow>
        [CHR 0x0A] @ txt_square @ '' '' @ type_name ev_type @ '' (''
        @ str_nat (length type_changes) @ txt_items @ '')'')"

definition render_group :: "string \<times> ChangeRecord list \<Rightarrow> string list" where
  "render_group g = group_header g # map render_change (snd g)"

definition rule70 :: string where
  "rule70 = replicate 70 (CHR ''='')"

definition rule50 :: string where
  "rule50 = replicate 50 (CHR ''-'')"

text \<open>The arguments of the calls of \<^verbatim>\<open>print\<close> in \<^verbatim>\<open>_generate_report\<close>, in order.\<close>

definition report_lines :: "datetime \<Rightarrow> ChangeRecord list \<Rightarrow> string list" where
  "report_lines current_time changes =
     [[CHR 0x0A] @ rule70, txt_report_title @ strftime_title current_time, rule70]
     @ (if changes = [] then [txt_no_change]
        else [txt_detected @ str_nat (length changes) @ txt_items, rule50]
             @ concat (map render_group (group_by_type changes)))
     @ [rule70]"

text \<open>
  \<^verbatim>\<open>_generate_report\<close>. The clock is read first, then the window is read from the store,
  then the lines are printed, and the assignment to \<^verbatim>\<open>last_report_time\<close> is the last
  statement. Writing to the console can fail; \<open>fault = Some (k, e)\<close> says that the call
  number \<open>k\<close> of \<^verbatim>\<open>print\<close> (counting from 0) raises \<open>e\<close>. The method has no handler, so the
  exception leaves it: the result is the state at that point and the exception.
\<close>

definition generate_report ::
  "(nat \<times> exn) option \<Rightarrow> datetime \<Rightarrow> FileMonitor \<Rightarrow> FileMonitor \<times> exn option" where
  "generate_report fault current_time m =
     (let changes = get_changes_since_last_report (handler m) (last_report_time m);
          lines = report_lines current_time changes
      in case fault of
           Some (k, e) \<Rightarrow>
             if k < length lines
             then (m\<lparr>stdout := stdout m @ take k lines\<rparr>, Some e)
             else (m\<lparr>stdout := stdout m @ lines, last_report_time := current_time\<rparr>, None)
         | None \<Rightarrow>
             (m\<lparr>stdout := stdout m @ lines, last_report_time := current_time\<rparr>, None))"

text \<open>
  The order the specification speaks of: \<open>first_seen_at changes k\<close> is the position in the
  batch of the first record of kind \<open>k\<close> (the length of the batch when there is none).
\<close>

definition first_seen_at :: "ChangeRecord list \<Rightarrow> string \<Rightarrow> nat" where
  "first_seen_at changes k = length (takeWhile (\<lambda>c. event_type c \<noteq> k) changes)"

subsection \<open>The scheduler thread\<close>

text \<open>
  A loop of the program runs on the readings of its environment, one element of a list for
  each pass: the loop has returned, or an exception has left it, or the list is used up
  while the loop is still going (\<open>Pending\<close>).
\<close>

datatype loop_result = Returned | Raised exn | Pending

text \<open>
  A pass of \<^verbatim>\<open>_report_scheduler\<close> reads the clock; \<open>report_now\<close> and \<open>report_fault\<close> are the
  clock reading and the console fault of the report, should the pass generate one.
  \<^verbatim>\<open>wait_seconds\<close> is the difference of two datetimes in seconds; the model keeps it in
  microseconds, which has the same sign. The sleeps change no state.
\<close>

record sched_env =
  loop_now :: datetime
  report_now :: datetime
  report_fault :: "(nat \<times> exn) option"

fun report_scheduler :: "sched_env list \<Rightarrow> FileMonitor \<Rightarrow> FileMonitor \<times> loop_result" where
  "report_scheduler [] m = (m, if running m then Pending else Returned)"
| "report_scheduler (e # es) m =
     (if \<not> running m then (m, Returned)
      else
        (let now = loop_now e;
             next_report = get_next_report_time now;
             wait = next_report - now
         in if wait > 0 then report_scheduler es m
            else (case generate_report (report_fault e) (report_now e) m of
                    (m', Some ex) \<Rightarrow> (m', Raised ex)
                  | (m', None) \<Rightarrow> report_scheduler es m')))"

text \<open>
  \<open>scheduler_report\<close> is a pass of the scheduler from the call of \<^verbatim>\<open>_generate_report\<close>
  on, followed by the rest of the loop: the branch that \<open>report_scheduler\<close> takes when the
  wait is not positive. Neither the report nor the scheduler has a handler, so an
  exception raised in the report leaves both.

  The scheduler is the target of a daemon thread. When the target returns the thread ends;
  when an exception leaves the target the thread ends as well, the interpreter writes the
  traceback to the error stream, and no other thread sees the exception. \<open>thread_end\<close> is
  that top level of the thread, applied to what the target has come to.
\<close>

definition scheduler_report ::
  "sched_env \<Rightarrow> sched_env list \<Rightarrow> FileMonitor \<Rightarrow> FileMonitor \<times> loop_result" where
  "scheduler_report e es m =
     (case generate_report (report_fault e) (report_now e) m of
        (m', Some ex) \<Rightarrow> (m', Raised ex)
      | (m', None) \<Rightarrow> report_scheduler es m')"

definition thread_end :: "FileMonitor \<times> loop_result \<Rightarrow> FileMonitor" where
  "thread_end r =
     (case r of
        (m', Pending) \<Rightarrow> m'
      | (m', Returned) \<Rightarrow> m'\<lparr>report_thread := ThreadEnded None\<rparr>
      | (m', Raised ex) \<Rightarrow> m'\<lparr>report_thread := ThreadEnded (Some ex)\<rparr>)"

definition run_report_thread :: "sched_env list \<Rightarrow> FileMonitor \<Rightarrow> FileMonitor" where
  "run_report_thread envs m = thread_end (report_scheduler envs m)"

subsection \<open>Starting, the main loop, stopping\<close>

definition stop :: "FileMonitor \<Rightarrow> FileMonitor" where
  "stop m =
     (if \<not> running m then m
      else
        (let m1 = m\<lparr>running := False\<rparr>;
             m2 = (if observer m1 \<noteq> NoObserver then m1\<lparr>observer := ObserverStopped\<rparr> else m1)
         in print_line txt_stopped m2))"

text \<open>
  A pass of \<^verbatim>\<open>_main_loop\<close> checks the monitored path, waits for it when it is gone
  (\<open>Pass False now\<close>: the path was gone and has come back), trims the store with the default
  of 7 days at clock reading \<open>now\<close> and sleeps. \<open>Interrupted e\<close> is a pass in which the
  exception \<open>e\<close> is raised before it has changed anything.
\<close>

datatype main_env = Pass bool datetime | Interrupted exn

definition main_loop_pass :: "bool \<Rightarrow> datetime \<Rightarrow> FileMonitor \<Rightarrow> FileMonitor" where
  "main_loop_pass path_exists now m =
     (let m1 = (if \<not> path_exists
                then (let m' = print_line txt_waiting
                                 (print_line (txt_connection_lost @ WATCH_PATH) m)
                      in if running m' then print_line txt_recovered m' else m')
                else m)
      in m1\<lparr>handler := clear_old_changes now 7 (handler m1)\<rparr>)"

fun main_loop :: "main_env list \<Rightarrow> FileMonitor \<Rightarrow> FileMonitor \<times> loop_result" where
  "main_loop [] m = (m, if running m then Pending else Returned)"
| "main_loop (e # es) m =
     (if \<not> running m then (m, Returned)
      else (case e of
              Interrupted ex \<Rightarrow> (m, Raised ex)
            | Pass path_exists now \<Rightarrow> main_loop es (main_loop_pass path_exists now m)))"

text \<open>
  \<^verbatim>\<open>start\<close>. \<open>path_exists\<close> is the first check of the monitored path and \<open>envs\<close> drives the
  main loop. The handlers of the \<^verbatim>\<open>try\<close> statement see what leaves the main loop, which
  runs on the calling thread; the scheduler runs on a thread of its own. The result is
  \<open>None\<close> while the main loop is still going.
\<close>

definition start :: "bool \<Rightarrow> main_env list \<Rightarrow> FileMonitor \<Rightarrow> (bool \<times> FileMonitor) option" where
  "start path_exists envs m =
     (if \<not> path_exists then Some (False, print_line (txt_path_missing @ WATCH_PATH) m)
      else if running m then Some (False, print_line txt_already_running m)
      else
        (let m1 = m\<lparr>observer := ObserverStarted\<rparr>;
             m2 = m1\<lparr>running := True\<rparr>;
             m3 = print_line (txt_started @ WATCH_PATH) m2;
             m4 = print_line (txt_report_hours
                    @ str_join '', '' (map (\<lambda>h. str_nat (nat h) @ '':00'') REPORT_HOURS)) m3;
             m5 = print_line txt_how_to_stop m4;
             m6 = m5\<lparr>report_thread := ThreadStarted\<rparr>
         in case main_loop envs m6 of
              (m7, Pending) \<Rightarrow> None
            | (m7, Returned) \<Rightarrow> Some (True, stop m7)
            | (m7, Raised KeyboardInterrupt) \<Rightarrow>
                Some (True, stop (print_line txt_keyboard_interrupt m7))
            | (m7, Raised (Exception msg)) \<Rightarrow>
                Some (True, stop (print_line (txt_error @ msg) m7))))"

section \<open>Scenario data\<close>

text \<open>
  The mixed batch of the specification: on 15 January 2024 (day 738900) a file is created
  at 09:30, another is deleted at 09:45 and a third is renamed at 10:05; the watermark is
  09:00 of that day.
\<close>

definition mixed_t1 :: datetime where
  "mixed_t1 = combine 738900 9 + 30 * us_per_minute"

definition mixed_t2 :: datetime where
  "mixed_t2 = combine 738900 9 + 45 * us_per_minute"

definition mixed_t3 :: datetime where
  "mixed_t3 = combine 738900 10 + 5 * us_per_minute"

definition mixed_watermark :: datetime where
  "mixed_watermark = combine 738900 9"

definition mixed_store :: FileMonitorHandler where
  "mixed_store =
     on_moved mixed_t3
       \<lparr>src_path = ''/a/old.txt'', dest_path = ''/a/new.txt'', ev_is_directory = False\<rparr>
       (on_deleted mixed_t2
          \<lparr>src_path = ''/a/c.txt'', dest_path = [], ev_is_directory = False\<rparr>
          (on_created mixed_t1
             \<lparr>src_path = ''/a/b.txt'', dest_path = [], ev_is_directory = False\<rparr> []))"

text \<open>
  Retention: it is noon of 15 January 2024, and the store has one bucket dated ten days
  before, one dated seven days before and one dated five days before.
\<close>

definition trim_now :: datetime where
  "trim_now = combine 738900 12"

definition trim_later :: datetime where
  "trim_later = combine 738900 13"

definition trim_store :: FileMonitorHandler where
  "trim_store =
     record_change (combine 738895 8) ''modified'' ''/a/e.txt'' False None
       (record_change (combine 738893 8) ''created'' ''/a/d.txt'' False None
          (record_change (combine 738890 8) ''deleted'' ''/a/x.txt'' False None []))"

text \<open>
  The three records of the mixed batch, a monitor that holds them with the watermark at
  09:00 and reports at 10:07, and a second store in which the deletion came first.
\<close>

definition mixed_created :: ChangeRecord where
  "mixed_created = \<lparr>timestamp = mixed_t1, event_type = ''created'', path = ''/a/b.txt'',
                     is_directory = False, old_path = None\<rparr>"

definition mixed_deleted :: ChangeRecord where
  "mixed_deleted = \<lparr>timestamp = mixed_t2, event_type = ''deleted'', path = ''/a/c.txt'',
                     is_directory = False, old_path = None\<rparr>"

definition mixed_moved :: ChangeRecord where
  "mixed_moved = \<lparr>timestamp = mixed_t3, event_type = ''moved'', path = ''/a/new.txt'',
                   is_directory = False, old_path = Some ''/a/old.txt''\<rparr>"

definition report_clock :: datetime where
  "report_clock = combine 738900 10 + 7 * us_per_minute"

definition mixed_monitor :: FileMonitor where
  "mixed_monitor =
     \<lparr>observer = ObserverStarted, handler = mixed_store, last_report_time = mixed_watermark,
      running = True, report_thread = ThreadStarted, stdout = []\<rparr>"

definition swapped_store :: FileMonitorHandler where
  "swapped_store =
     on_created mixed_t2
       \<lparr>src_path = ''/a/b.txt'', dest_path = [], ev_is_directory = False\<rparr>
       (on_deleted mixed_t1
          \<lparr>src_path = ''/a/c.txt'', dest_path = [], ev_is_directory = False\<rparr> [])"

text \<open>A monitor that has just been constructed, at 09:00 of the same day.\<close>

definition idle_monitor :: FileMonitor where
  "idle_monitor = init_monitor mixed_watermark"

section \<open>Reading the window\<close>

lemma get_changes_filter:
  "get_changes_since_last_report changes t =
     sort_key timestamp (filter (\<lambda>c. timestamp c > t) (all_records changes))"
  by (simp add: get_changes_since_last_report_def all_records_def filter_concat)

text \<open>
  C1. For every store and every watermark \<open>t\<close>, the window read returns exactly the stored
  records, of all buckets and with their multiplicities, whose timestamp is strictly
  greater than \<open>t\<close>, in non-decreasing order of timestamp. The statement is about an
  arbitrary store, so it holds whatever the order and the buckets of the insertions were.
\<close>

theorem get_changes_exact_sorted:
  "mset (get_changes_since_last_report changes t) =
     filter_mset (\<lambda>c. timestamp c > t) (mset (all_records changes))
   \<and> sorted (map timestamp (get_changes_since_last_report changes t))"
  by (simp add: get_changes_filter)

text \<open>
  C10. The window shrinks as the watermark grows: for \<open>t1 \<le> t2\<close> the read at \<open>t2\<close> is a
  subsequence of the read at \<open>t1\<close>, and a watermark that is at least every stored timestamp
  gives the empty list.
\<close>

theorem get_changes_antimono:
  "(t1 \<le> t2 \<longrightarrow>
      subseq (get_changes_since_last_report changes t2)
             (get_changes_since_last_report changes t1))
   \<and> ((\<forall>c \<in> set (all_records changes). timestamp c \<le> t2) \<longrightarrow>
      get_changes_since_last_report changes t2 = [])"
proof (intro conjI impI)
  assume le: "t1 \<le> t2"
  have "get_changes_since_last_report changes t2 =
          filter (\<lambda>c. timestamp c > t2) (get_changes_since_last_report changes t1)"
  proof -
    have "filter (\<lambda>c. timestamp c > t2) (filter (\<lambda>c. timestamp c > t1) (all_records changes))
            = filter (\<lambda>c. timestamp c > t2) (all_records changes)"
      using le by (auto intro: filter_cong)
    then show ?thesis
      by (simp only: get_changes_filter filter_sort)
  qed
  then show "subseq (get_changes_since_last_report changes t2)
                    (get_changes_since_last_report changes t1)"
    by (simp only: subseq_filter_left)
next
  assume "\<forall>c \<in> set (all_records changes). timestamp c \<le> t2"
  then have "filter (\<lambda>c. timestamp c > t2) (all_records changes) = []"
    by (auto simp: filter_empty_conv)
  then show "get_changes_since_last_report changes t2 = []"
    by (simp add: get_changes_filter)
qed

lemmas time_defs = us_per_second_def us_per_minute_def us_per_hour_def us_per_day_def
  combine_def date_of_def hour_of_def minute_of_def strftime_date_key_def

lemma mixed_store_eval:
  "mixed_store =
     [(738900,
       [\<lparr>timestamp = 63840994200000000, event_type = ''created'', path = ''/a/b.txt'',
           is_directory = False, old_path = None\<rparr>,
        \<lparr>timestamp = 63840995100000000, event_type = ''deleted'', path = ''/a/c.txt'',
           is_directory = False, old_path = None\<rparr>,
        \<lparr>timestamp = 63840996300000000, event_type = ''moved'', path = ''/a/new.txt'',
           is_directory = False, old_path = Some ''/a/old.txt''\<rparr>])]"
  by (simp add: mixed_store_def on_moved_def on_deleted_def on_created_def record_change_def
      mixed_t1_def mixed_t2_def mixed_t3_def time_defs)

theorem get_changes_antimono_witness:
  "mixed_t1 \<le> mixed_t2
   \<and> subseq (get_changes_since_last_report mixed_store mixed_t2)
             (get_changes_since_last_report mixed_store mixed_t1)
   \<and> list_all (\<lambda>c. timestamp c \<le> mixed_t3) (all_records mixed_store)
   \<and> get_changes_since_last_report mixed_store mixed_t3 = []"
proof -
  have a: "mixed_t1 \<le> mixed_t2"
    by (simp add: mixed_t1_def mixed_t2_def time_defs)
  have b: "\<forall>c \<in> set (all_records mixed_store). timestamp c \<le> mixed_t3"
    by (simp add: mixed_store_eval all_records_def dd_values_def mixed_t3_def time_defs)
  from get_changes_antimono [of mixed_t1 mixed_t2 mixed_store] a
  have c: "subseq (get_changes_since_last_report mixed_store mixed_t2)
                  (get_changes_since_last_report mixed_store mixed_t1)"
    by blast
  from get_changes_antimono [of mixed_t1 mixed_t3 mixed_store] b
  have d: "get_changes_since_last_report mixed_store mixed_t3 = []"
    by blast
  show ?thesis using a b c d by (simp add: list_all_iff)
qed

section \<open>The store\<close>

lemma foldl_dd_del:
  "foldl (\<lambda>d k. dd_del k d) ch ks = filter (\<lambda>kv. fst kv \<notin> set ks) ch"
proof (induction ks arbitrary: ch)
  case Nil
  show ?case by simp
next
  case (Cons k ks)
  have "filter (\<lambda>kv. fst kv \<notin> set ks) (dd_del k ch) = filter (\<lambda>kv. fst kv \<notin> set (k # ks)) ch"
    by (auto simp: dd_del_def intro: filter_cong)
  with Cons show ?case by simp
qed

lemma clear_old_changes_filter:
  "clear_old_changes now days_to_keep changes =
     filter (\<lambda>kv. \<not> strptime_date_key (fst kv) < now - timedelta_days days_to_keep) changes"
  unfolding clear_old_changes_def Let_def foldl_dd_del dd_keys_def
  by (rule filter_cong) auto

lemma us_per_day_pos: "0 < us_per_day"
  by (simp add: us_per_day_def us_per_hour_def us_per_minute_def us_per_second_def)

lemma midnight_before_cutoff:
  "strptime_date_key k < now - timedelta_days d \<longleftrightarrow>
     k < date_of now - d \<or> (k = date_of now - d \<and> 0 < now mod us_per_day)"
proof -
  define D where "D = us_per_day"
  define q where "q = now div D"
  define r where "r = now mod D"
  have D: "0 < D" by (simp add: D_def us_per_day_pos)
  have now: "now = q * D + r" by (simp add: q_def r_def)
  have r: "0 \<le> r" "r < D" using D by (simp_all add: r_def)
  have "k * D < q * D + r - d * D \<longleftrightarrow> k < q - d \<or> (k = q - d \<and> 0 < r)"
  proof (cases "k < q - d")
    case True
    then have "k + 1 \<le> q - d" by simp
    then have "(k + 1) * D \<le> (q - d) * D" using D by (simp only: mult_le_cancel_right) simp
    then have "k * D + D \<le> q * D - d * D" by (simp add: algebra_simps)
    with r True show ?thesis by simp
  next
    case False
    show ?thesis
    proof (cases "k = q - d")
      case True
      then have "k * D = q * D - d * D" by (simp add: left_diff_distrib)
      then show ?thesis using True by simp
    next
      case neq: False
      with False have "q - d + 1 \<le> k" by simp
      then have "(q - d + 1) * D \<le> k * D" using D by (simp only: mult_le_cancel_right) simp
      then have "q * D - d * D + D \<le> k * D" by (simp add: algebra_simps)
      with r False neq show ?thesis by simp
    qed
  qed
  then show ?thesis
    by (simp add: strptime_date_key_def timedelta_days_def date_of_def D_def q_def r_def)
qed

lemma dd_keys_dd_append:
  "dd_keys (dd_append k v d) = (if k \<in> set (dd_keys d) then dd_keys d else dd_keys d @ [k])"
  by (induction d) (force simp: dd_keys_def)+

lemma map_of_dd_append:
  "map_of (dd_append k v d) =
     (map_of d)(k \<mapsto> (case map_of d k of None \<Rightarrow> [] | Some vs \<Rightarrow> vs) @ [v])"
  by (induction d) (auto simp: fun_eq_iff)

lemma set_dd_append:
  "(k', vs') \<in> set (dd_append k v d) \<Longrightarrow>
     (k', vs') \<in> set d \<or> (k' = k \<and> (vs' = [v] \<or> (\<exists>vs. (k, vs) \<in> set d \<and> vs' = vs @ [v])))"
  by (induction d) (auto split: if_splits)

lemma bucket_inv_Nil: "bucket_inv []"
  by (simp add: bucket_inv_def dd_keys_def)

lemma bucket_inv_record_change:
  assumes "bucket_inv changes"
  shows "bucket_inv (record_change now ev_type p is_dir old changes)"
proof -
  let ?c = "\<lparr>timestamp = now, event_type = ev_type, path = p, is_directory = is_dir, old_path = old\<rparr>"
  let ?k = "strftime_date_key now"
  have d: "distinct (dd_keys (dd_append ?k ?c changes))"
    using assms by (simp add: dd_keys_dd_append bucket_inv_def)
  have "\<forall>kv \<in> set (dd_append ?k ?c changes). \<forall>c \<in> set (snd kv). strftime_date_key (timestamp c) = fst kv"
  proof (intro ballI)
    fix kv c assume kv: "kv \<in> set (dd_append ?k ?c changes)" and c: "c \<in> set (snd kv)"
    obtain k' vs' where [simp]: "kv = (k', vs')" by (cases kv)
    from kv set_dd_append[of k' vs' ?k ?c changes]
    consider "(k', vs') \<in> set changes" | "k' = ?k" "vs' = [?c]"
      | vs where "k' = ?k" "(?k, vs) \<in> set changes" "vs' = vs @ [?c]" by auto
    then show "strftime_date_key (timestamp c) = fst kv"
    proof cases
      case 1
      with assms c show ?thesis by (auto simp: bucket_inv_def list_all_iff)
    next
      case 2
      with c show ?thesis by simp
    next
      case 3
      with assms c show ?thesis by (auto simp: bucket_inv_def list_all_iff)
    qed
  qed
  with d show ?thesis
    by (simp add: bucket_inv_def record_change_def list_all_iff)
qed

lemma bucket_inv_clear_old_changes:
  assumes "bucket_inv changes"
  shows "bucket_inv (clear_old_changes now d changes)"
  using assms
  by (auto simp: bucket_inv_def clear_old_changes_filter dd_keys_def list_all_iff distinct_map_filter)

lemma trim_store_eval:
  "trim_store =
     [(738890, [\<lparr>timestamp = 63840124800000000, event_type = ''deleted'', path = ''/a/x.txt'',
                  is_directory = False, old_path = None\<rparr>]),
      (738893, [\<lparr>timestamp = 63840384000000000, event_type = ''created'', path = ''/a/d.txt'',
                  is_directory = False, old_path = None\<rparr>]),
      (738895, [\<lparr>timestamp = 63840556800000000, event_type = ''modified'', path = ''/a/e.txt'',
                  is_directory = False, old_path = None\<rparr>])]"
  by (simp add: trim_store_def record_change_def time_defs)

lemma trim_now_eval: "trim_now = 63841003200000000"
  by (simp add: trim_now_def time_defs)

lemma trim_now_date: "date_of trim_now = 738900"
  by (simp add: trim_now_def time_defs)

text \<open>
  C6. Every operation of the recorder keeps the invariant that a record lies in exactly one
  bucket, the one keyed by the date of its timestamp: the empty store has it, each step
  preserves it, and under it a record that occurs in two entries of the store occurs in
  the same entry, keyed by its own date. Recording appends the new record, stamped with
  the clock reading, to the bucket of that reading's date, which exists afterwards, and
  changes no other bucket; the read changes nothing; the trim keeps or drops whole
  entries of the store and alters none.
\<close>

theorem recorder_invariant:
  "bucket_inv [] \<and>
   (bucket_inv changes \<longrightarrow> bucket_inv (recorder_step op changes)) \<and>
   (bucket_inv changes \<longrightarrow>
      (\<forall>k cs k' cs' c. (k, cs) \<in> set changes \<and> c \<in> set cs \<and> (k', cs') \<in> set changes \<and> c \<in> set cs'
          \<longrightarrow> k = strftime_date_key (timestamp c) \<and> k' = k \<and> cs' = cs)) \<and>
   (case op of
      Record now ev_type p is_dir old \<Rightarrow>
        (\<forall>k. bucket (recorder_step op changes) k =
           (if k = strftime_date_key now
            then bucket changes k @ [\<lparr>timestamp = now, event_type = ev_type, path = p,
                                      is_directory = is_dir, old_path = old\<rparr>]
            else bucket changes k)) \<and>
        (strftime_date_key now \<in> set (dd_keys (recorder_step op changes)))
    | ReadSince t \<Rightarrow> recorder_step op changes = changes
    | Trim now days_to_keep \<Rightarrow>
        recorder_step op changes =
          filter (\<lambda>kv. \<not> strptime_date_key (fst kv) < now - timedelta_days days_to_keep) changes)"
proof (intro conjI impI)
  show "bucket_inv []" by (rule bucket_inv_Nil)
next
  assume "bucket_inv changes"
  then show "bucket_inv (recorder_step op changes)"
    by (cases op) (simp_all add: bucket_inv_record_change bucket_inv_clear_old_changes)
next
  assume inv: "bucket_inv changes"
  show "\<forall>k cs k' cs' c. (k, cs) \<in> set changes \<and> c \<in> set cs \<and> (k', cs') \<in> set changes \<and> c \<in> set cs'
          \<longrightarrow> k = strftime_date_key (timestamp c) \<and> k' = k \<and> cs' = cs"
  proof (intro allI impI, elim conjE)
    fix k cs k' cs' c
    assume a: "(k, cs) \<in> set changes" "c \<in> set cs" "(k', cs') \<in> set changes" "c \<in> set cs'"
    from inv a(1,2) have k1: "k = strftime_date_key (timestamp c)"
      by (fastforce simp: bucket_inv_def list_all_iff)
    from inv a(3,4) have k2: "k' = strftime_date_key (timestamp c)"
      by (fastforce simp: bucket_inv_def list_all_iff)
    note k = k1 k2
    from inv have "distinct (map fst changes)" by (simp add: bucket_inv_def dd_keys_def)
    with a k have "cs' = cs" by (metis eq_key_imp_eq_value)
    with k show "k = strftime_date_key (timestamp c) \<and> k' = k \<and> cs' = cs" by simp
  qed
next
  show "case op of
      Record now ev_type p is_dir old \<Rightarrow>
        (\<forall>k. bucket (recorder_step op changes) k =
           (if k = strftime_date_key now
            then bucket changes k @ [\<lparr>timestamp = now, event_type = ev_type, path = p,
                                      is_directory = is_dir, old_path = old\<rparr>]
            else bucket changes k)) \<and>
        (strftime_date_key now \<in> set (dd_keys (recorder_step op changes)))
    | ReadSince t \<Rightarrow> recorder_step op changes = changes
    | Trim now days_to_keep \<Rightarrow>
        recorder_step op changes =
          filter (\<lambda>kv. \<not> strptime_date_key (fst kv) < now - timedelta_days days_to_keep) changes"
  proof (cases op)
    case (Record now ev_type p is_dir old)
    then show ?thesis
      by (simp add: record_change_def bucket_def map_of_dd_append dd_keys_dd_append)
  next
    case (ReadSince t)
    then show ?thesis by simp
  next
    case (Trim now days_to_keep)
    then show ?thesis by (simp add: clear_old_changes_filter)
  qed
qed

theorem recorder_invariant_witness:
  "bucket_inv trim_store
   \<and> bucket_inv (recorder_step (Record trim_now ''created'' ''/a/f.txt'' False None) trim_store)
   \<and> bucket_inv (recorder_step (Trim trim_now 7) trim_store)
   \<and> (738890, bucket trim_store 738890) \<in> set trim_store
   \<and> 738890 = strftime_date_key (timestamp (hd (bucket trim_store 738890)))"
proof -
  have a: "bucket_inv trim_store"
    by (simp add: bucket_inv_def trim_store_eval dd_keys_def time_defs)
  have b: "(738890, bucket trim_store 738890) \<in> set trim_store"
    by (simp add: trim_store_eval bucket_def)
  have c: "hd (bucket trim_store 738890) \<in> set (bucket trim_store 738890)"
    by (simp add: trim_store_eval bucket_def)
  from recorder_invariant [of trim_store "Record trim_now ''created'' ''/a/f.txt'' False None"] a
  have d: "bucket_inv (recorder_step (Record trim_now ''created'' ''/a/f.txt'' False None) trim_store)"
    by blast
  from recorder_invariant [of trim_store "Trim trim_now 7"] a
  have e: "bucket_inv (recorder_step (Trim trim_now 7) trim_store)"
    by blast
  from recorder_invariant [of trim_store "Trim trim_now 7"] a b c
  have f: "738890 = strftime_date_key (timestamp (hd (bucket trim_store 738890)))"
    by blast
  show ?thesis using a b d e f by blast
qed

text \<open>
  C4 (amended). The trim compares the midnight of a bucket's date with the clock reading
  minus the days to keep, so it removes exactly the buckets dated strictly before today
  minus \<open>d\<close> and, unless the clock reads exactly midnight, also the bucket dated today
  minus \<open>d\<close>; every other bucket stays, with its records and in its place. With 7 days a
  bucket dated 10 days before today is removed and one dated 5 days before is retained.
\<close>

theorem clear_old_changes_exact:
  "clear_old_changes now d changes =
     filter (\<lambda>kv. \<not> (fst kv < date_of now - d
                      \<or> (fst kv = date_of now - d \<and> 0 < now mod us_per_day))) changes
   \<and> date_of now - 10 \<notin> set (dd_keys (clear_old_changes now 7 changes))
   \<and> (\<forall>cs. (date_of now - 5, cs) \<in> set changes
          \<longrightarrow> (date_of now - 5, cs) \<in> set (clear_old_changes now 7 changes))"
  by (auto simp: clear_old_changes_filter midnight_before_cutoff dd_keys_def)

theorem clear_old_changes_exact_witness:
  "(date_of trim_now - 5,
      [\<lparr>timestamp = 63840556800000000, event_type = ''modified'', path = ''/a/e.txt'',
         is_directory = False, old_path = None\<rparr>]) \<in> set trim_store
   \<and> (date_of trim_now - 5,
      [\<lparr>timestamp = 63840556800000000, event_type = ''modified'', path = ''/a/e.txt'',
         is_directory = False, old_path = None\<rparr>]) \<in> set (clear_old_changes trim_now 7 trim_store)
   \<and> date_of trim_now - 10 \<in> set (dd_keys trim_store)
   \<and> date_of trim_now - 10 \<notin> set (dd_keys (clear_old_changes trim_now 7 trim_store))"
proof -
  let ?cs = "[\<lparr>timestamp = 63840556800000000, event_type = ''modified'', path = ''/a/e.txt'',
         is_directory = False, old_path = None\<rparr>]"
  have a: "(date_of trim_now - 5, ?cs) \<in> set trim_store"
    by (simp add: trim_now_date trim_store_eval)
  have b: "date_of trim_now - 10 \<in> set (dd_keys trim_store)"
    by (simp add: trim_now_date trim_store_eval dd_keys_def)
  from clear_old_changes_exact [of trim_now 7 trim_store] a b show ?thesis
    by blast
qed

text \<open>
  At noon the bucket dated exactly seven days before today is removed by the trim with
  7 days, although its date is not strictly before today minus seven.
\<close>

theorem clear_old_changes_cutoff_day_counterexample:
  "\<not> (738893 < date_of trim_now - 7)
   \<and> 738893 \<in> set (dd_keys trim_store)
   \<and> 738893 \<notin> set (dd_keys (clear_old_changes trim_now 7 trim_store))"
proof (intro conjI)
  show "\<not> (738893 < date_of trim_now - 7)"
    by (simp add: trim_now_date)
  show "738893 \<in> set (dd_keys trim_store)"
    by (simp add: trim_store_eval dd_keys_def)
  show "738893 \<notin> set (dd_keys (clear_old_changes trim_now 7 trim_store))"
    by (simp add: trim_now_eval trim_store_eval clear_old_changes_def dd_keys_def
        dd_del_def strptime_date_key_def timedelta_days_def us_per_day_def us_per_hour_def
        us_per_minute_def us_per_second_def)
qed

text \<open>
  C7. Trimming twice is trimming once: a second trim at the same clock reading changes
  nothing, and when the clock has advanced between the two calls the store after both is
  the store that the later call alone would have left.
\<close>

theorem clear_old_changes_idempotent:
  "clear_old_changes now d (clear_old_changes now d changes) = clear_old_changes now d changes
   \<and> (now \<le> now' \<longrightarrow>
        clear_old_changes now' d (clear_old_changes now d changes)
          = clear_old_changes now' d changes)"
  by (auto simp: clear_old_changes_filter intro: filter_cong)

theorem clear_old_changes_idempotent_witness:
  "trim_now \<le> trim_later
   \<and> clear_old_changes trim_later 7 (clear_old_changes trim_now 7 trim_store)
       = clear_old_changes trim_later 7 trim_store
   \<and> clear_old_changes trim_now 7 (clear_old_changes trim_now 7 trim_store)
       = clear_old_changes trim_now 7 trim_store"
proof -
  have a: "trim_now \<le> trim_later"
    by (simp add: trim_now_def trim_later_def time_defs)
  from clear_old_changes_idempotent [of trim_now 7 trim_store trim_later] a show ?thesis
    by blast
qed

section \<open>The next report time\<close>

lemma time_split:
  obtains r where "t = date_of t * 86400000000 + r" "0 \<le> r" "r < 86400000000"
    "hour_of t * 3600000000 \<le> r" "r < hour_of t * 3600000000 + 3600000000"
proof -
  define r where "r = t mod 86400000000"
  have 1: "t = date_of t * 86400000000 + r"
    by (simp add: r_def date_of_def us_per_day_def us_per_hour_def us_per_minute_def
        us_per_second_def)
  have 2: "0 \<le> r" "r < 86400000000" by (simp_all add: r_def)
  have "r = (r div 3600000000) * 3600000000 + r mod 3600000000" by simp
  moreover have "0 \<le> r mod 3600000000" "r mod 3600000000 < 3600000000" by simp_all
  ultimately have "(r div 3600000000) * 3600000000 \<le> r"
    "r < (r div 3600000000) * 3600000000 + 3600000000"
    by linarith+
  then have 3: "hour_of t * 3600000000 \<le> r" "r < hour_of t * 3600000000 + 3600000000"
    by (simp_all add: r_def hour_of_def us_per_day_def us_per_hour_def us_per_minute_def
        us_per_second_def)
  from 1 2 3 show thesis by (rule that)
qed

lemma combine_num: "combine d h = d * 86400000000 + h * 3600000000"
  by (simp add: combine_def us_per_day_def us_per_hour_def us_per_minute_def us_per_second_def)

lemma get_next_report_time_cases:
  "get_next_report_time t =
     (if hour_of t < 6 then combine (date_of t) 6
      else if hour_of t < 10 then combine (date_of t) 10
      else if hour_of t < 14 then combine (date_of t) 14
      else if hour_of t < 17 then combine (date_of t) 17
      else combine (date_of t + 1) 6)"
  by (simp add: get_next_report_time_def REPORT_HOURS_def Let_def)

lemma next_report_later: "t < get_next_report_time t"
proof -
  obtain r where "t = date_of t * 86400000000 + r" "0 \<le> r" "r < 86400000000"
    "hour_of t * 3600000000 \<le> r" "r < hour_of t * 3600000000 + 3600000000"
    by (rule time_split)
  then show ?thesis
    by (simp add: get_next_report_time_cases combine_num)
qed

lemma fields_of_combine:
  assumes "0 \<le> h" "h < 24"
  shows "date_of (combine d h) = d" "hour_of (combine d h) = h" "minute_of (combine d h) = 0"
    "second_of (combine d h) = 0" "microsecond_of (combine d h) = 0"
proof -
  have m: "(d * 86400000000 + h * 3600000000) mod 86400000000 = h * 3600000000"
    using assms by (simp add: mod_pos_pos_trivial)
  show "date_of (combine d h) = d"
    using assms by (simp add: date_of_def combine_def us_per_day_def us_per_hour_def
        us_per_minute_def us_per_second_def div_pos_pos_trivial)
  show "hour_of (combine d h) = h"
    using m by (simp add: hour_of_def combine_def us_per_day_def us_per_hour_def
        us_per_minute_def us_per_second_def)
  have "(d * 86400000000 + h * 3600000000) = (d * 24 + h) * 3600000000" by simp
  then have "(d * 86400000000 + h * 3600000000) mod 3600000000 = 0" by (simp only: mod_mult_self2_is_0)
  then show "minute_of (combine d h) = 0"
    by (simp add: minute_of_def combine_def us_per_day_def us_per_hour_def
        us_per_minute_def us_per_second_def)
  have "(d * 86400000000 + h * 3600000000) = (d * 1440 + h * 60) * 60000000" by simp
  then have "(d * 86400000000 + h * 3600000000) mod 60000000 = 0" by (simp only: mod_mult_self2_is_0)
  then show "second_of (combine d h) = 0"
    by (simp add: second_of_def combine_def us_per_day_def us_per_hour_def
        us_per_minute_def us_per_second_def)
  have "(d * 86400000000 + h * 3600000000) = (d * 86400 + h * 3600) * 1000000" by simp
  then have "(d * 86400000000 + h * 3600000000) mod 1000000 = 0" by (simp only: mod_mult_self2_is_0)
  then show "microsecond_of (combine d h) = 0"
    by (simp add: microsecond_of_def combine_def us_per_day_def us_per_hour_def
        us_per_minute_def us_per_second_def)
qed

lemma next_report_is_trigger:
  "\<exists>d h. h \<in> set REPORT_HOURS \<and> get_next_report_time t = combine d h"
  by (auto simp: get_next_report_time_cases REPORT_HOURS_def)

lemma next_report_earliest:
  assumes "h \<in> set REPORT_HOURS" "t < combine d h"
  shows "get_next_report_time t \<le> combine d h"
proof -
  have h: "h = 6 \<or> h = 10 \<or> h = 14 \<or> h = 17" using assms(1) by (simp add: REPORT_HOURS_def)
  obtain r where r: "t = date_of t * 86400000000 + r" "0 \<le> r" "r < 86400000000"
    "hour_of t * 3600000000 \<le> r" "r < hour_of t * 3600000000 + 3600000000"
    by (rule time_split)
  consider "d < date_of t" | "d = date_of t" | "date_of t < d" by linarith
  then show ?thesis
  proof cases
    case 1
    then have "d * 86400000000 + 86400000000 \<le> date_of t * 86400000000" by simp
    with h assms(2) r show ?thesis by (auto simp: combine_num)
  next
    case 2
    with h assms(2) r show ?thesis
      by (auto simp: get_next_report_time_cases combine_num)
  next
    case 3
    then have "date_of t * 86400000000 + 86400000000 \<le> d * 86400000000" by simp
    with h show ?thesis
      by (auto simp: get_next_report_time_cases combine_num)
  qed
qed

lemma full_hour_is_combine:
  assumes "minute_of u = 0" "second_of u = 0" "microsecond_of u = 0"
  shows "u = combine (date_of u) (hour_of u)"
proof -
  have us: "u mod 1000000 = 0"
    using assms(3) by (simp add: microsecond_of_def us_per_second_def)
  have "u mod 60000000 = ((u mod 60000000) div 1000000) * 1000000 + (u mod 60000000) mod 1000000"
    by simp
  also have "(u mod 60000000) mod 1000000 = u mod 1000000"
    by (simp add: mod_mod_cancel)
  also have "(u mod 60000000) div 1000000 = 0"
    using assms(2) by (simp add: second_of_def us_per_minute_def us_per_second_def)
  finally have um: "u mod 60000000 = 0" using us by simp
  have "u mod 3600000000 = ((u mod 3600000000) div 60000000) * 60000000 + (u mod 3600000000) mod 60000000"
    by simp
  also have "(u mod 3600000000) mod 60000000 = u mod 60000000"
    by (simp add: mod_mod_cancel)
  also have "(u mod 3600000000) div 60000000 = 0"
    using assms(1) by (simp add: minute_of_def us_per_hour_def us_per_minute_def us_per_second_def)
  finally have uh: "u mod 3600000000 = 0" using um by simp
  have "u mod 86400000000 = ((u mod 86400000000) div 3600000000) * 3600000000 + (u mod 86400000000) mod 3600000000"
    by simp
  also have "(u mod 86400000000) mod 3600000000 = u mod 3600000000"
    by (simp add: mod_mod_cancel)
  finally have ud: "u mod 86400000000 = hour_of u * 3600000000"
    using uh by (simp add: hour_of_def us_per_day_def us_per_hour_def us_per_minute_def us_per_second_def)
  have "u = (u div 86400000000) * 86400000000 + u mod 86400000000" by simp
  with ud show ?thesis
    by (simp add: combine_num date_of_def us_per_day_def us_per_hour_def us_per_minute_def us_per_second_def)
qed

text \<open>
  C3. For every current time the next report time is strictly later than the current time;
  its hour is one of the four report hours and its minute, second and microsecond are
  zero; and it is the earliest such time: no later full report hour, of any day, comes
  before it. At exactly 17:00:00 the result is 06:00 of the following day, because the
  search for a remaining hour compares with a strict \<open>>\<close>.
\<close>

theorem next_report_time_correct:
  "current_time < get_next_report_time current_time
   \<and> hour_of (get_next_report_time current_time) \<in> set REPORT_HOURS
   \<and> minute_of (get_next_report_time current_time) = 0
   \<and> second_of (get_next_report_time current_time) = 0
   \<and> microsecond_of (get_next_report_time current_time) = 0
   \<and> (\<forall>u. current_time < u \<and> hour_of u \<in> set REPORT_HOURS \<and> minute_of u = 0
            \<and> second_of u = 0 \<and> microsecond_of u = 0
          \<longrightarrow> get_next_report_time current_time \<le> u)
   \<and> get_next_report_time (combine d 17) = combine (d + 1) 6"
proof (intro conjI allI impI)
  show "current_time < get_next_report_time current_time"
    by (rule next_report_later)
next
  obtain d' h where h: "h \<in> set REPORT_HOURS" and eq: "get_next_report_time current_time = combine d' h"
    using next_report_is_trigger by blast
  from h have b: "0 \<le> h" "h < 24" by (auto simp: REPORT_HOURS_def)
  show "hour_of (get_next_report_time current_time) \<in> set REPORT_HOURS"
    using h eq fields_of_combine(2)[OF b] by simp
  show "minute_of (get_next_report_time current_time) = 0"
    using eq fields_of_combine(3)[OF b] by simp
  show "second_of (get_next_report_time current_time) = 0"
    using eq fields_of_combine(4)[OF b] by simp
  show "microsecond_of (get_next_report_time current_time) = 0"
    using eq fields_of_combine(5)[OF b] by simp
next
  fix u
  assume a: "current_time < u \<and> hour_of u \<in> set REPORT_HOURS \<and> minute_of u = 0
            \<and> second_of u = 0 \<and> microsecond_of u = 0"
  then have "u = combine (date_of u) (hour_of u)" by (simp add: full_hour_is_combine)
  with a next_report_earliest[of "hour_of u" current_time "date_of u"]
  show "get_next_report_time current_time \<le> u" by simp
next
  have "hour_of (combine d 17) = 17" "date_of (combine d 17) = d"
    by (simp_all add: fields_of_combine)
  then show "get_next_report_time (combine d 17) = combine (d + 1) 6"
    by (simp add: get_next_report_time_cases)
qed

theorem next_report_time_correct_witness:
  "mixed_t1 < combine 738900 14
   \<and> hour_of (combine 738900 14) \<in> set REPORT_HOURS
   \<and> minute_of (combine 738900 14) = 0
   \<and> second_of (combine 738900 14) = 0
   \<and> microsecond_of (combine 738900 14) = 0
   \<and> get_next_report_time mixed_t1 \<le> combine 738900 14
   \<and> get_next_report_time mixed_t1 = combine 738900 10
   \<and> mixed_t1 < get_next_report_time mixed_t1"
proof -
  have a: "mixed_t1 < combine 738900 14"
    by (simp add: mixed_t1_def time_defs)
  have b: "hour_of (combine 738900 14) \<in> set REPORT_HOURS" "minute_of (combine 738900 14) = 0"
    "second_of (combine 738900 14) = 0" "microsecond_of (combine 738900 14) = 0"
    by (simp_all add: fields_of_combine REPORT_HOURS_def)
  have c: "get_next_report_time mixed_t1 = combine 738900 10"
    by (simp add: get_next_report_time_def REPORT_HOURS_def mixed_t1_def time_defs)
  from next_report_time_correct [of mixed_t1 0] a b
  have d: "get_next_report_time mixed_t1 \<le> combine 738900 14"
    "mixed_t1 < get_next_report_time mixed_t1"
    by blast+
  show ?thesis using a b c d by blast
qed

section \<open>The report\<close>

lemma group_by_type_snoc:
  "group_by_type (cs @ [c]) = dd_append (event_type c) c (group_by_type cs)"
  by (simp add: group_by_type_def)

lemma set_keys_group_by_type:
  "set (dd_keys (group_by_type cs)) = event_type ` set cs"
proof (induction cs rule: rev_induct)
  case Nil
  show ?case by (simp add: group_by_type_def dd_keys_def)
next
  case (snoc c cs)
  then show ?case by (auto simp: group_by_type_snoc dd_keys_dd_append)
qed

lemma distinct_keys_group_by_type:
  "distinct (dd_keys (group_by_type cs))"
proof (induction cs rule: rev_induct)
  case Nil
  show ?case by (simp add: group_by_type_def dd_keys_def)
next
  case (snoc c cs)
  then show ?case by (simp add: group_by_type_snoc dd_keys_dd_append)
qed

lemma map_of_group_by_type:
  "map_of (group_by_type cs) k =
     (if k \<in> event_type ` set cs then Some (filter (\<lambda>c. event_type c = k) cs) else None)"
proof (induction cs rule: rev_induct)
  case Nil
  show ?case by (simp add: group_by_type_def)
next
  case (snoc c cs)
  show ?case
  proof (cases "event_type c \<in> event_type ` set cs")
    case True
    with snoc show ?thesis
      by (auto simp: group_by_type_snoc map_of_dd_append)
  next
    case False
    then have "filter (\<lambda>c'. event_type c' = event_type c) cs = []"
      unfolding filter_empty_conv by (metis imageI)
    with False snoc show ?thesis
      by (auto simp: group_by_type_snoc map_of_dd_append)
  qed
qed

lemma alist_by_keys:
  "distinct (map fst d) \<Longrightarrow> d = map (\<lambda>k. (k, the (map_of d k))) (map fst d)"
proof (induction d)
  case Nil
  show ?case by simp
next
  case (Cons kv d)
  obtain k v where kv: "kv = (k, v)" by (cases kv)
  from Cons.prems kv have nk: "k \<notin> fst ` set d" and dd: "distinct (map fst d)" by auto
  have "map (\<lambda>k'. (k', the (map_of (kv # d) k'))) (map fst d)
        = map (\<lambda>k'. (k', the (map_of d k'))) (map fst d)"
    using nk kv by (intro map_cong) auto
  with Cons.IH[OF dd] kv show ?case by simp
qed

lemma group_by_type_by_keys:
  "group_by_type cs =
     map (\<lambda>k. (k, filter (\<lambda>c. event_type c = k) cs)) (dd_keys (group_by_type cs))"
proof -
  have "group_by_type cs =
     map (\<lambda>k. (k, the (map_of (group_by_type cs) k))) (dd_keys (group_by_type cs))"
    using alist_by_keys[of "group_by_type cs"] distinct_keys_group_by_type[of cs]
    by (simp add: dd_keys_def)
  also have "\<dots> = map (\<lambda>k. (k, filter (\<lambda>c. event_type c = k) cs)) (dd_keys (group_by_type cs))"
    using set_keys_group_by_type[of cs]
    by (intro map_cong) (auto simp: map_of_group_by_type)
  finally show ?thesis .
qed

lemma first_seen_at_less:
  assumes "k \<in> event_type ` set cs"
  shows "first_seen_at cs k < length cs"
proof -
  let ?P = "\<lambda>c. event_type c \<noteq> k"
  from assms have "\<not> (\<forall>c \<in> set cs. ?P c)" by auto
  then have ne: "takeWhile ?P cs \<noteq> cs"
    using takeWhile_eq_all_conv [of ?P cs] by blast
  have "takeWhile ?P cs = take (length (takeWhile ?P cs)) cs" by (rule takeWhile_eq_take)
  with ne have "length (takeWhile ?P cs) \<noteq> length cs" by auto
  moreover have "length (takeWhile ?P cs) \<le> length cs" by (rule length_takeWhile_le)
  ultimately show ?thesis by (simp add: first_seen_at_def)
qed

lemma first_seen_at_snoc_old:
  assumes "k \<in> event_type ` set cs"
  shows "first_seen_at (cs @ [c]) k = first_seen_at cs k"
proof -
  from assms obtain x where "x \<in> set cs" "\<not> event_type x \<noteq> k" by auto
  then have "takeWhile (\<lambda>c. event_type c \<noteq> k) (cs @ [c]) = takeWhile (\<lambda>c. event_type c \<noteq> k) cs"
    by (rule takeWhile_append1)
  then show ?thesis by (simp add: first_seen_at_def)
qed

lemma first_seen_at_snoc_new:
  assumes "event_type c \<notin> event_type ` set cs"
  shows "first_seen_at (cs @ [c]) (event_type c) = length cs"
proof -
  from assms have "\<And>x. x \<in> set cs \<Longrightarrow> event_type x \<noteq> event_type c"
    by (metis imageI)
  then have "takeWhile (\<lambda>c'. event_type c' \<noteq> event_type c) (cs @ [c])
               = cs @ takeWhile (\<lambda>c'. event_type c' \<noteq> event_type c) [c]"
    by (rule takeWhile_append2)
  then show ?thesis by (simp add: first_seen_at_def)
qed

lemma keys_in_first_seen_order:
  "sorted_wrt (<) (map (first_seen_at cs) (dd_keys (group_by_type cs)))"
proof (induction cs rule: rev_induct)
  case Nil
  show ?case by (simp add: group_by_type_def dd_keys_def)
next
  case (snoc c cs)
  let ?ks = "dd_keys (group_by_type cs)"
  have old: "map (first_seen_at (cs @ [c])) ?ks = map (first_seen_at cs) ?ks"
    by (intro map_cong) (simp_all add: set_keys_group_by_type first_seen_at_snoc_old)
  show ?case
  proof (cases "event_type c \<in> event_type ` set cs")
    case True
    with snoc show ?thesis
      by (simp add: group_by_type_snoc dd_keys_dd_append set_keys_group_by_type old)
  next
    case False
    have "\<forall>k \<in> set ?ks. first_seen_at cs k < length cs"
      by (simp add: set_keys_group_by_type first_seen_at_less)
    with False snoc show ?thesis
      by (simp add: group_by_type_snoc dd_keys_dd_append set_keys_group_by_type
          sorted_wrt_append first_seen_at_snoc_new old)
  qed
qed

lemma generate_report_ok:
  "generate_report None now m =
     (m\<lparr>stdout := stdout m @ report_lines now
                     (get_changes_since_last_report (handler m) (last_report_time m)),
        last_report_time := now\<rparr>, None)"
  by (simp add: generate_report_def Let_def)

lemma report_lines_nonempty:
  "changes \<noteq> [] \<Longrightarrow>
     report_lines now changes =
       [[CHR 0x0A] @ rule70, txt_report_title @ strftime_title now, rule70,
        txt_detected @ str_nat (length changes) @ txt_items, rule50]
       @ concat (map render_group (group_by_type changes)) @ [rule70]"
  by (simp add: report_lines_def)

lemma render_groups_by_keys:
  "map render_group (group_by_type changes) =
     map (\<lambda>k. group_header (k, filter (\<lambda>c. event_type c = k) changes)
               # map render_change (filter (\<lambda>c. event_type c = k) changes))
         (dd_keys (group_by_type changes))"
  by (subst group_by_type_by_keys) (simp add: render_group_def o_def)


lemma mixed_read_eval:
  "get_changes_since_last_report mixed_store mixed_watermark =
     [mixed_created, mixed_deleted, mixed_moved]"
  by (simp add: mixed_store_eval get_changes_since_last_report_def dd_values_def
      mixed_watermark_def mixed_created_def mixed_deleted_def mixed_moved_def
      mixed_t1_def mixed_t2_def mixed_t3_def time_defs)

lemma swapped_read_eval:
  "get_changes_since_last_report swapped_store mixed_watermark =
     [mixed_deleted\<lparr>timestamp := mixed_t1\<rparr>, mixed_created\<lparr>timestamp := mixed_t2\<rparr>]"
  by (simp add: swapped_store_def on_created_def on_deleted_def record_change_def
      get_changes_since_last_report_def dd_values_def
      mixed_watermark_def mixed_created_def mixed_deleted_def
      mixed_t1_def mixed_t2_def time_defs)

lemma mixed_keys_eval:
  "dd_keys (group_by_type [mixed_created, mixed_deleted, mixed_moved]) =
     [''created'', ''deleted'', ''moved'']"
  by (simp add: group_by_type_def dd_keys_def mixed_created_def mixed_deleted_def mixed_moved_def)

lemma swapped_keys_eval:
  "dd_keys (group_by_type [mixed_deleted\<lparr>timestamp := mixed_t1\<rparr>,
                           mixed_created\<lparr>timestamp := mixed_t2\<rparr>]) =
     [''deleted'', ''created'']"
  by (simp add: group_by_type_def dd_keys_def mixed_created_def mixed_deleted_def)

lemma group_header_single:
  "group_header (''created'', [c]) = [CHR 0x0A] @ txt_square @ '' '' @ txt_created @ '' (1'' @ txt_items @ '')''"
  "group_header (''deleted'', [c]) = [CHR 0x0A] @ txt_square @ '' '' @ txt_deleted @ '' (1'' @ txt_items @ '')''"
  "group_header (''moved'', [c]) = [CHR 0x0A] @ txt_square @ '' '' @ txt_moved @ '' (1'' @ txt_items @ '')''"
  by (simp_all add: group_header_def type_name_def type_names_def str_nat.simps digit_char_def)

lemma mixed_monitor_fields:
  "handler mixed_monitor = mixed_store" "last_report_time mixed_monitor = mixed_watermark"
  "stdout mixed_monitor = []"
  by (simp_all add: mixed_monitor_def)

lemma strftime_evals:
  "strftime_title report_clock = ''2024'' @ txt_year @ ''01'' @ txt_month @ ''15'' @ txt_day @ '' 10:07''"
  "strftime_line mixed_t1 = ''01/15 09:30''"
  "strftime_line mixed_t2 = ''01/15 09:45''"
  "strftime_line mixed_t3 = ''01/15 10:05''"
  by (simp_all add: strftime_title_def strftime_line_def ord2ymd_def Let_def two_digits_def zfill_def
      str_nat.simps digit_char_def DAYS_BEFORE_MONTH_def DAYS_IN_MONTH_def
      report_clock_def mixed_t1_def mixed_t2_def mixed_t3_def time_defs)

text \<open>
  C9. The groups of a report are printed in the order in which their kinds first appear in
  the batch, which is the time-sorted window: the kinds of the groups are those of the
  batch, each once, in increasing position of first appearance; the group of a kind holds
  the records of that kind in batch order; and the body of the report is these groups,
  header first, one after the other. No order of the kinds is fixed in advance: a batch
  that begins with a deletion prints the deletions first.
\<close>

theorem groups_in_first_seen_order:
  "distinct (dd_keys (group_by_type changes))
   \<and> set (dd_keys (group_by_type changes)) = event_type ` set changes
   \<and> sorted_wrt (<) (map (first_seen_at changes) (dd_keys (group_by_type changes)))
   \<and> (changes \<noteq> [] \<longrightarrow>
        report_lines now changes =
          [[CHR 0x0A] @ rule70, txt_report_title @ strftime_title now, rule70,
           txt_detected @ str_nat (length changes) @ txt_items, rule50]
          @ concat (map (\<lambda>k. group_header (k, filter (\<lambda>c. event_type c = k) changes)
                              # map render_change (filter (\<lambda>c. event_type c = k) changes))
                        (dd_keys (group_by_type changes)))
          @ [rule70])
   \<and> stdout (fst (generate_report None now m)) =
       stdout m @ report_lines now
                    (get_changes_since_last_report (handler m) (last_report_time m))"
proof (intro conjI impI)
  show "distinct (dd_keys (group_by_type changes))"
    by (rule distinct_keys_group_by_type)
  show "set (dd_keys (group_by_type changes)) = event_type ` set changes"
    by (rule set_keys_group_by_type)
  show "sorted_wrt (<) (map (first_seen_at changes) (dd_keys (group_by_type changes)))"
    by (rule keys_in_first_seen_order)
  show "stdout (fst (generate_report None now m)) =
       stdout m @ report_lines now
                    (get_changes_since_last_report (handler m) (last_report_time m))"
    by (simp add: generate_report_ok)
next
  assume "changes \<noteq> []"
  then have "report_lines now changes =
       [[CHR 0x0A] @ rule70, txt_report_title @ strftime_title now, rule70,
        txt_detected @ str_nat (length changes) @ txt_items, rule50]
       @ concat (map render_group (group_by_type changes)) @ [rule70]"
    by (rule report_lines_nonempty)
  then show "report_lines now changes =
          [[CHR 0x0A] @ rule70, txt_report_title @ strftime_title now, rule70,
           txt_detected @ str_nat (length changes) @ txt_items, rule50]
          @ concat (map (\<lambda>k. group_header (k, filter (\<lambda>c. event_type c = k) changes)
                              # map render_change (filter (\<lambda>c. event_type c = k) changes))
                        (dd_keys (group_by_type changes)))
          @ [rule70]"
    by (simp only: render_groups_by_keys)
qed

theorem groups_in_first_seen_order_witness:
  "get_changes_since_last_report swapped_store mixed_watermark \<noteq> []
   \<and> dd_keys (group_by_type (get_changes_since_last_report swapped_store mixed_watermark))
       = [''deleted'', ''created'']
   \<and> dd_keys (group_by_type (get_changes_since_last_report mixed_store mixed_watermark))
       = [''created'', ''deleted'', ''moved'']
   \<and> report_lines report_clock (get_changes_since_last_report swapped_store mixed_watermark) =
       [[CHR 0x0A] @ rule70, txt_report_title @ strftime_title report_clock, rule70,
        txt_detected @ ''2'' @ txt_items, rule50,
        [CHR 0x0A] @ txt_square @ '' '' @ txt_deleted @ '' (1'' @ txt_items @ '')'',
        render_change (mixed_deleted\<lparr>timestamp := mixed_t1\<rparr>),
        [CHR 0x0A] @ txt_square @ '' '' @ txt_created @ '' (1'' @ txt_items @ '')'',
        render_change (mixed_created\<lparr>timestamp := mixed_t2\<rparr>),
        rule70]"
proof -
  let ?cs = "get_changes_since_last_report swapped_store mixed_watermark"
  have ne: "?cs \<noteq> []" by (simp add: swapped_read_eval)
  have k1: "dd_keys (group_by_type ?cs) = [''deleted'', ''created'']"
    by (simp only: swapped_read_eval swapped_keys_eval)
  have k2: "dd_keys (group_by_type (get_changes_since_last_report mixed_store mixed_watermark))
       = [''created'', ''deleted'', ''moved'']"
    by (simp only: mixed_read_eval mixed_keys_eval)
  from groups_in_first_seen_order [of ?cs report_clock mixed_monitor] ne
  have "report_lines report_clock ?cs =
          [[CHR 0x0A] @ rule70, txt_report_title @ strftime_title report_clock, rule70,
           txt_detected @ str_nat (length ?cs) @ txt_items, rule50]
          @ concat (map (\<lambda>k. group_header (k, filter (\<lambda>c. event_type c = k) ?cs)
                              # map render_change (filter (\<lambda>c. event_type c = k) ?cs))
                        (dd_keys (group_by_type ?cs)))
          @ [rule70]"
    by blast
  then have "report_lines report_clock ?cs =
       [[CHR 0x0A] @ rule70, txt_report_title @ strftime_title report_clock, rule70,
        txt_detected @ ''2'' @ txt_items, rule50,
        [CHR 0x0A] @ txt_square @ '' '' @ txt_deleted @ '' (1'' @ txt_items @ '')'',
        render_change (mixed_deleted\<lparr>timestamp := mixed_t1\<rparr>),
        [CHR 0x0A] @ txt_square @ '' '' @ txt_created @ '' (1'' @ txt_items @ '')'',
        render_change (mixed_created\<lparr>timestamp := mixed_t2\<rparr>),
        rule70]"
    unfolding k1 unfolding swapped_read_eval
    by (simp add: group_header_def type_name_def type_names_def str_nat.simps digit_char_def
        mixed_created_def mixed_deleted_def)
  with ne k1 k2 show ?thesis by blast
qed

text \<open>
  C8. When the store holds exactly one created record for /a/b.txt, one deleted record for
  /a/c.txt and one record moved from /a/old.txt to /a/new.txt, all later than the
  watermark, the report says that three changes were detected and its body consists of
  three groups, one for each kind in some order, each a header with count 1 followed by
  the line of its record; the line of the moved record ends with the old path, an arrow
  and the new path.
\<close>

theorem mixed_batch_report:
  assumes "mset (all_records (handler m)) = {#c1, c2, c3#}"
    and "event_type c1 = ''created''" and "path c1 = ''/a/b.txt''"
    and "event_type c2 = ''deleted''" and "path c2 = ''/a/c.txt''"
    and "event_type c3 = ''moved''" and "old_path c3 = Some ''/a/old.txt''"
    and "path c3 = ''/a/new.txt''"
    and "last_report_time m < timestamp c1" and "last_report_time m < timestamp c2"
    and "last_report_time m < timestamp c3"
  shows
    "stdout (fst (generate_report None now m)) =
       stdout m
       @ [[CHR 0x0A] @ rule70, txt_report_title @ strftime_title now, rule70,
          txt_detected @ ''3'' @ txt_items, rule50]
       @ concat (map render_group
           (group_by_type (get_changes_since_last_report (handler m) (last_report_time m))))
       @ [rule70]
     \<and> mset (map render_group
           (group_by_type (get_changes_since_last_report (handler m) (last_report_time m)))) =
         {# [[CHR 0x0A] @ txt_square @ '' '' @ txt_created @ '' (1'' @ txt_items @ '')'',
             render_change c1],
            [[CHR 0x0A] @ txt_square @ '' '' @ txt_deleted @ '' (1'' @ txt_items @ '')'',
             render_change c2],
            [[CHR 0x0A] @ txt_square @ '' '' @ txt_moved @ '' (1'' @ txt_items @ '')'',
             render_change c3] #}
     \<and> render_change c3 =
         ''  '' @ strftime_line (timestamp c3) @ '' [''
         @ (if is_directory c3 then txt_folder else txt_file)
         @ ''] /a/old.txt '' @ txt_arrow @ '' /a/new.txt''"
proof -
  let ?cs = "get_changes_since_last_report (handler m) (last_report_time m)"
  let ?ks = "dd_keys (group_by_type ?cs)"
  have ms: "mset ?cs = {#c1, c2, c3#}"
    using assms by (simp add: get_changes_filter)
  then have "size (mset ?cs) = 3" by simp
  then have len: "length ?cs = 3" by simp
  then have ne: "?cs \<noteq> []" by auto
  have "set ?cs = set_mset (mset ?cs)" by simp
  then have st: "set ?cs = {c1, c2, c3}" unfolding ms by simp
  have "set ?ks = {''created'', ''deleted'', ''moved''}"
    using assms by (simp add: set_keys_group_by_type st)
  then have "set ?ks = set [''created'', ''deleted'', ''moved'']" by simp
  then have "mset_set (set ?ks) = mset_set (set [''created'', ''deleted'', ''moved''])" by simp
  also have "mset_set (set ?ks) = mset ?ks"
    by (rule mset_set_set) (rule distinct_keys_group_by_type)
  also have "mset_set (set [''created'', ''deleted'', ''moved'']) = mset [''created'', ''deleted'', ''moved'']"
    by (rule mset_set_set) simp
  finally have kms: "mset ?ks = {#''created'', ''deleted'', ''moved''#}" by simp
  have "mset (filter (\<lambda>c. event_type c = ''created'') ?cs) = {#c1#}"
    using assms by (simp add: ms)
  then have f1: "filter (\<lambda>c. event_type c = ''created'') ?cs = [c1]"
    by (simp only: mset_single_iff)
  have "mset (filter (\<lambda>c. event_type c = ''deleted'') ?cs) = {#c2#}"
    using assms by (simp add: ms)
  then have f2: "filter (\<lambda>c. event_type c = ''deleted'') ?cs = [c2]"
    by (simp only: mset_single_iff)
  have "mset (filter (\<lambda>c. event_type c = ''moved'') ?cs) = {#c3#}"
    using assms by (simp add: ms)
  then have f3: "filter (\<lambda>c. event_type c = ''moved'') ?cs = [c3]"
    by (simp only: mset_single_iff)
  have "mset (map render_group (group_by_type ?cs)) =
          image_mset (\<lambda>k. group_header (k, filter (\<lambda>c. event_type c = k) ?cs)
                           # map render_change (filter (\<lambda>c. event_type c = k) ?cs))
                     (mset ?ks)"
    by (simp only: render_groups_by_keys mset_map)
  then have groups: "mset (map render_group (group_by_type ?cs)) =
         {# [[CHR 0x0A] @ txt_square @ '' '' @ txt_created @ '' (1'' @ txt_items @ '')'',
             render_change c1],
            [[CHR 0x0A] @ txt_square @ '' '' @ txt_deleted @ '' (1'' @ txt_items @ '')'',
             render_change c2],
            [[CHR 0x0A] @ txt_square @ '' '' @ txt_moved @ '' (1'' @ txt_items @ '')'',
             render_change c3] #}"
    unfolding kms by (simp add: f1 f2 f3 group_header_single)
  have out: "stdout (fst (generate_report None now m)) =
       stdout m
       @ [[CHR 0x0A] @ rule70, txt_report_title @ strftime_title now, rule70,
          txt_detected @ ''3'' @ txt_items, rule50]
       @ concat (map render_group (group_by_type ?cs))
       @ [rule70]"
    using ne len
    by (simp add: generate_report_ok report_lines_nonempty str_nat.simps digit_char_def)
  have line: "render_change c3 =
         ''  '' @ strftime_line (timestamp c3) @ '' [''
         @ (if is_directory c3 then txt_folder else txt_file)
         @ ''] /a/old.txt '' @ txt_arrow @ '' /a/new.txt''"
    using assms by (simp add: render_change_def str_option_def)
  from out groups line show ?thesis by blast
qed

theorem mixed_batch_report_witness:
  "mset (all_records (handler mixed_monitor)) = {#mixed_created, mixed_deleted, mixed_moved#}
   \<and> last_report_time mixed_monitor < timestamp mixed_created
   \<and> last_report_time mixed_monitor < timestamp mixed_deleted
   \<and> last_report_time mixed_monitor < timestamp mixed_moved
   \<and> mset (map render_group
        (group_by_type (get_changes_since_last_report (handler mixed_monitor)
                          (last_report_time mixed_monitor)))) =
       {# [[CHR 0x0A] @ txt_square @ '' '' @ txt_created @ '' (1'' @ txt_items @ '')'',
           render_change mixed_created],
          [[CHR 0x0A] @ txt_square @ '' '' @ txt_deleted @ '' (1'' @ txt_items @ '')'',
           render_change mixed_deleted],
          [[CHR 0x0A] @ txt_square @ '' '' @ txt_moved @ '' (1'' @ txt_items @ '')'',
           render_change mixed_moved] #}
   \<and> stdout (fst (generate_report None report_clock mixed_monitor)) =
       [[CHR 0x0A] @ rule70,
        txt_report_title @ ''2024'' @ txt_year @ ''01'' @ txt_month @ ''15'' @ txt_day
          @ '' 10:07'',
        rule70,
        txt_detected @ ''3'' @ txt_items,
        rule50,
        [CHR 0x0A] @ txt_square @ '' '' @ txt_created @ '' (1'' @ txt_items @ '')'',
        ''  01/15 09:30 ['' @ txt_file @ ''] /a/b.txt'',
        [CHR 0x0A] @ txt_square @ '' '' @ txt_deleted @ '' (1'' @ txt_items @ '')'',
        ''  01/15 09:45 ['' @ txt_file @ ''] /a/c.txt'',
        [CHR 0x0A] @ txt_square @ '' '' @ txt_moved @ '' (1'' @ txt_items @ '')'',
        ''  01/15 10:05 ['' @ txt_file @ ''] /a/old.txt '' @ txt_arrow @ '' /a/new.txt'',
        rule70]"
proof -
  have a: "mset (all_records (handler mixed_monitor)) = {#mixed_created, mixed_deleted, mixed_moved#}"
    by (simp add: mixed_monitor_fields mixed_store_eval all_records_def dd_values_def
        mixed_created_def mixed_deleted_def mixed_moved_def mixed_t1_def mixed_t2_def mixed_t3_def
        time_defs)
  have b: "event_type mixed_created = ''created''" "path mixed_created = ''/a/b.txt''"
    "event_type mixed_deleted = ''deleted''" "path mixed_deleted = ''/a/c.txt''"
    "event_type mixed_moved = ''moved''" "old_path mixed_moved = Some ''/a/old.txt''"
    "path mixed_moved = ''/a/new.txt''"
    by (simp_all add: mixed_created_def mixed_deleted_def mixed_moved_def)
  have c: "last_report_time mixed_monitor < timestamp mixed_created"
    "last_report_time mixed_monitor < timestamp mixed_deleted"
    "last_report_time mixed_monitor < timestamp mixed_moved"
    by (simp_all add: mixed_monitor_fields mixed_watermark_def mixed_created_def mixed_deleted_def
        mixed_moved_def mixed_t1_def mixed_t2_def mixed_t3_def time_defs)
  note w = mixed_batch_report [OF a b c, of report_clock]
  have r: "render_change mixed_created = ''  01/15 09:30 ['' @ txt_file @ ''] /a/b.txt''"
    "render_change mixed_deleted = ''  01/15 09:45 ['' @ txt_file @ ''] /a/c.txt''"
    "render_change mixed_moved =
       ''  01/15 10:05 ['' @ txt_file @ ''] /a/old.txt '' @ txt_arrow @ '' /a/new.txt''"
    by (simp_all add: render_change_def str_option_def strftime_evals
        mixed_created_def mixed_deleted_def mixed_moved_def)
  have g: "map render_group (group_by_type
             (get_changes_since_last_report (handler mixed_monitor) (last_report_time mixed_monitor)))
           = [[[CHR 0x0A] @ txt_square @ '' '' @ txt_created @ '' (1'' @ txt_items @ '')'',
               render_change mixed_created],
              [[CHR 0x0A] @ txt_square @ '' '' @ txt_deleted @ '' (1'' @ txt_items @ '')'',
               render_change mixed_deleted],
              [[CHR 0x0A] @ txt_square @ '' '' @ txt_moved @ '' (1'' @ txt_items @ '')'',
               render_change mixed_moved]]"
    unfolding mixed_monitor_fields mixed_read_eval render_groups_by_keys mixed_keys_eval
    by (simp add: group_header_single mixed_created_def mixed_deleted_def mixed_moved_def)
  from w have "stdout (fst (generate_report None report_clock mixed_monitor)) =
       stdout mixed_monitor
       @ [[CHR 0x0A] @ rule70, txt_report_title @ strftime_title report_clock, rule70,
          txt_detected @ ''3'' @ txt_items, rule50]
       @ concat (map render_group
           (group_by_type (get_changes_since_last_report (handler mixed_monitor)
                             (last_report_time mixed_monitor))))
       @ [rule70]"
    by blast
  then have out: "stdout (fst (generate_report None report_clock mixed_monitor)) =
       [[CHR 0x0A] @ rule70,
        txt_report_title @ ''2024'' @ txt_year @ ''01'' @ txt_month @ ''15'' @ txt_day
          @ '' 10:07'',
        rule70,
        txt_detected @ ''3'' @ txt_items,
        rule50,
        [CHR 0x0A] @ txt_square @ '' '' @ txt_created @ '' (1'' @ txt_items @ '')'',
        ''  01/15 09:30 ['' @ txt_file @ ''] /a/b.txt'',
        [CHR 0x0A] @ txt_square @ '' '' @ txt_deleted @ '' (1'' @ txt_items @ '')'',
        ''  01/15 09:45 ['' @ txt_file @ ''] /a/c.txt'',
        [CHR 0x0A] @ txt_square @ '' '' @ txt_moved @ '' (1'' @ txt_items @ '')'',
        ''  01/15 10:05 ['' @ txt_file @ ''] /a/old.txt '' @ txt_arrow @ '' /a/new.txt'',
        rule70]"
    unfolding g by (simp add: r strftime_evals mixed_monitor_fields)
  from w have "mset (map render_group
        (group_by_type (get_changes_since_last_report (handler mixed_monitor)
                          (last_report_time mixed_monitor)))) =
       {# [[CHR 0x0A] @ txt_square @ '' '' @ txt_created @ '' (1'' @ txt_items @ '')'',
           render_change mixed_created],
          [[CHR 0x0A] @ txt_square @ '' '' @ txt_deleted @ '' (1'' @ txt_items @ '')'',
           render_change mixed_deleted],
          [[CHR 0x0A] @ txt_square @ '' '' @ txt_moved @ '' (1'' @ txt_items @ '')'',
           render_change mixed_moved] #}"
    by blast
  with a c out show ?thesis by blast
qed



section \<open>Exceptions\<close>

lemma print_line_fields:
  "running (print_line s m) = running m" "observer (print_line s m) = observer m"
  "stdout (print_line s m) = stdout m @ [s]" "handler (print_line s m) = handler m"
  "last_report_time (print_line s m) = last_report_time m"
  by (simp_all add: print_line_def)

lemma main_loop_pass_fields:
  "running (main_loop_pass b t m) = running m"
  "observer (main_loop_pass b t m) = observer m"
  "last_report_time (main_loop_pass b t m) = last_report_time m"
  "\<exists>out. stdout (main_loop_pass b t m) = stdout m @ out"
  by (simp_all add: main_loop_pass_def Let_def print_line_fields)

lemma main_loop_interrupted:
  assumes "running m"
  shows "\<exists>m'. main_loop (map (\<lambda>p. Pass (fst p) (snd p)) passes @ Interrupted ex # rest) m
                 = (m', Raised ex)
              \<and> running m' \<and> observer m' = observer m
              \<and> last_report_time m' = last_report_time m
              \<and> (\<exists>out. stdout m' = stdout m @ out)"
  using assms
proof (induction passes arbitrary: m)
  case Nil
  then show ?case by simp
next
  case (Cons p passes)
  let ?m1 = "main_loop_pass (fst p) (snd p) m"
  from Cons.prems have r: "running ?m1" by (simp add: main_loop_pass_fields)
  from Cons.IH[OF r] obtain m' out where
    m': "main_loop (map (\<lambda>p. Pass (fst p) (snd p)) passes @ Interrupted ex # rest) ?m1 = (m', Raised ex)"
      "running m'" "observer m' = observer ?m1" "last_report_time m' = last_report_time ?m1"
      "stdout m' = stdout ?m1 @ out"
    by blast
  obtain out1 where "stdout ?m1 = stdout m @ out1"
    using main_loop_pass_fields(4) by blast
  with m' Cons.prems show ?case
    by (simp add: main_loop_pass_fields)
qed

lemma stop_running:
  "running m \<Longrightarrow> observer m = ObserverStarted \<Longrightarrow>
     \<not> running (stop m) \<and> observer (stop m) = ObserverStopped
     \<and> stdout (stop m) = stdout m @ [txt_stopped]
     \<and> last_report_time (stop m) = last_report_time m"
  by (simp add: stop_def Let_def print_line_def)

lemma report_hours_text:
  "str_join '', '' (map (\<lambda>h. str_nat (nat h) @ '':00'') REPORT_HOURS) = ''6:00, 10:00, 14:00, 17:00''"
  by (simp add: REPORT_HOURS_def str_nat.simps digit_char_def)

text \<open>
  The scheduler computes the next report time from the clock reading of the same pass, and
  that time is strictly later than the reading. The wait is therefore positive in every
  pass: the pass sleeps and starts over, the branch that generates a report is not taken,
  and the scheduler leaves the monitor as it found it. This is also why \<open>start\<close> can be
  read without the scheduler's steps in between.
\<close>

lemma report_scheduler_only_waits:
  "report_scheduler envs m = (m, if running m then Pending else Returned)"
proof (induction envs)
  case Nil
  show ?case by simp
next
  case (Cons e envs)
  have "0 < get_next_report_time (loop_now e) - loop_now e"
    using next_report_later[of "loop_now e"] by simp
  with Cons show ?case by (simp add: Let_def)
qed

lemma run_report_thread_only_waits:
  "running m \<Longrightarrow> run_report_thread envs m = m"
  by (simp add: run_report_thread_def thread_end_def report_scheduler_only_waits)

text \<open>A pass of the scheduler, with the branch of the report named.\<close>

lemma report_scheduler_pass:
  "report_scheduler (e # es) m =
     (if \<not> running m then (m, Returned)
      else if 0 < get_next_report_time (loop_now e) - loop_now e then report_scheduler es m
      else scheduler_report e es m)"
  by (simp add: scheduler_report_def Let_def)

text \<open>
  An exception raised in the main loop, after any number of passes, is caught by the handler
  in \<open>start\<close>: \<open>start\<close> returns, the message of the exception is printed after the error
  prefix, and the monitor is stopped, which clears the running flag, stops the observer
  and prints the closing line.
\<close>

theorem main_loop_exception_stops_monitor:
  "\<not> running m \<longrightarrow>
     (\<exists>m' out. start True (map (\<lambda>p. Pass (fst p) (snd p)) passes
                            @ Interrupted (Exception msg) # rest) m = Some (True, m')
        \<and> \<not> running m'
        \<and> observer m' = ObserverStopped
        \<and> stdout m' = stdout m @ out @ [txt_error @ msg, txt_stopped])"
proof
  assume nr: "\<not> running m"
  let ?envs = "map (\<lambda>p. Pass (fst p) (snd p)) passes @ Interrupted (Exception msg) # rest"
  let ?m3 = "print_line (txt_started @ WATCH_PATH) (m\<lparr>observer := ObserverStarted, running := True\<rparr>)"
  let ?m4 = "print_line (txt_report_hours
               @ str_join '', '' (map (\<lambda>h. str_nat (nat h) @ '':00'') REPORT_HOURS)) ?m3"
  let ?m6 = "(print_line txt_how_to_stop ?m4)\<lparr>report_thread := ThreadStarted\<rparr>"
  have r6: "running ?m6" "observer ?m6 = ObserverStarted"
    by (simp_all add: print_line_def)
  have o6: "stdout ?m6 = stdout m @ [txt_started @ WATCH_PATH,
              txt_report_hours @ str_join '', '' (map (\<lambda>h. str_nat (nat h) @ '':00'') REPORT_HOURS),
              txt_how_to_stop]"
    by (simp add: print_line_def)
  from main_loop_interrupted[OF r6(1), of passes "Exception msg" rest]
  obtain m7 out where m7: "main_loop ?envs ?m6 = (m7, Raised (Exception msg))"
    "running m7" "observer m7 = observer ?m6" "stdout m7 = stdout ?m6 @ out"
    by blast
  let ?m8 = "print_line (txt_error @ msg) m7"
  have r8: "running ?m8" "observer ?m8 = ObserverStarted"
    using m7 r6 by (simp_all add: print_line_fields)
  have st: "start True ?envs m = Some (True, stop ?m8)"
    using nr m7(1) by (simp add: start_def Let_def)
  from stop_running[OF r8] m7(4) o6
  have "\<not> running (stop ?m8)" "observer (stop ?m8) = ObserverStopped"
    "stdout (stop ?m8) = stdout m @ ([txt_started @ WATCH_PATH,
              txt_report_hours @ str_join '', '' (map (\<lambda>h. str_nat (nat h) @ '':00'') REPORT_HOURS),
              txt_how_to_stop] @ out) @ [txt_error @ msg, txt_stopped]"
    by (simp_all add: print_line_fields)
  with st show "\<exists>m' out. start True ?envs m = Some (True, m')
        \<and> \<not> running m'
        \<and> observer m' = ObserverStopped
        \<and> stdout m' = stdout m @ out @ [txt_error @ msg, txt_stopped]"
    by blast
qed

theorem main_loop_exception_stops_monitor_witness:
  "\<not> running idle_monitor
   \<and> (\<exists>m' out. start True [Pass True trim_now, Interrupted (Exception ''disk error'')] idle_monitor
                  = Some (True, m')
        \<and> \<not> running m'
        \<and> observer m' = ObserverStopped
        \<and> stdout m' = stdout idle_monitor @ out @ [txt_error @ ''disk error'', txt_stopped])
   \<and> start True [Pass True trim_now, Interrupted (Exception ''disk error'')] idle_monitor =
       Some (True,
         \<lparr>observer = ObserverStopped, handler = [], last_report_time = mixed_watermark,
          running = False, report_thread = ThreadStarted,
          stdout = [txt_started @ WATCH_PATH,
                    txt_report_hours @ ''6:00, 10:00, 14:00, 17:00'',
                    txt_how_to_stop,
                    txt_error @ ''disk error'',
                    txt_stopped]\<rparr>)"
proof -
  have a: "\<not> running idle_monitor"
    by (simp add: idle_monitor_def init_monitor_def)
  from main_loop_exception_stops_monitor [of idle_monitor "[(True, trim_now)]" "''disk error''" "[]"] a
  have b: "\<exists>m' out. start True [Pass True trim_now, Interrupted (Exception ''disk error'')] idle_monitor
                  = Some (True, m')
        \<and> \<not> running m'
        \<and> observer m' = ObserverStopped
        \<and> stdout m' = stdout idle_monitor @ out @ [txt_error @ ''disk error'', txt_stopped]"
    by simp
  have c: "start True [Pass True trim_now, Interrupted (Exception ''disk error'')] idle_monitor =
       Some (True,
         \<lparr>observer = ObserverStopped, handler = [], last_report_time = mixed_watermark,
          running = False, report_thread = ThreadStarted,
          stdout = [txt_started @ WATCH_PATH,
                    txt_report_hours @ ''6:00, 10:00, 14:00, 17:00'',
                    txt_how_to_stop,
                    txt_error @ ''disk error'',
                    txt_stopped]\<rparr>)"
    by (simp add: start_def Let_def idle_monitor_def init_monitor_def print_line_def stop_def
        main_loop_pass_def clear_old_changes_def dd_keys_def report_hours_text)
  from a b c show ?thesis by blast
qed


end
